theory Spec2Isabelle
  imports Complex_Main "HOL-Library.AList" "HOL-Library.Sublist"
begin

section \<open>Python values\<close>

text \<open>
  The exceptions that the modelled code can raise. \<open>PluginError\<close> stands for any
  exception that a plugin method raises on its own account.
\<close>

datatype error = TypeError | ValueError | AttributeError | OverflowError | PluginError string

text \<open>
  A Python \<open>float\<close> is an IEEE 754 binary64 value. A finite one is kept as the rational
  number it denotes; the two zeros are not told apart (they compare equal, and comparison
  is the only operation that the plugin applies to a float).
\<close>

datatype pyfloat = Finite rat | PlusInf | MinusInf | NaN

text \<open>
  The objects that travel through the queues: \<open>None\<close> (which \<open>workers.py\<close> reads as
  the end-of-stream marker) and records, which are dictionaries with string keys whose
  values are again such objects. A dictionary is an association list in insertion order;
  strings are ASCII text.
\<close>

datatype pyval =
    PNone
  | PBool bool
  | PInt int
  | PFloat pyfloat
  | PStr string
  | PList "pyval list"
  | PDict "(string \<times> pyval) list"

type_synonym dict = "(string \<times> pyval) list"

text \<open>\<open>d.get(k)\<close> on a dictionary: the value stored under \<open>k\<close>, \<open>None\<close> when absent.\<close>

definition dict_get :: "dict \<Rightarrow> string \<Rightarrow> pyval" where
  "dict_get d k = (case map_of d k of None \<Rightarrow> PNone | Some v \<Rightarrow> v)"

text \<open>
  \<open>obj.get(k)\<close> on any object: only a dictionary has the method, every other object
  of the model (\<open>None\<close> included) raises \<open>AttributeError\<close>.
\<close>

fun py_get :: "pyval \<Rightarrow> string \<Rightarrow> error + pyval" where
  "py_get (PDict d) k = Inr (dict_get d k)"
| "py_get _ k = Inl AttributeError"

section \<open>The builtin \<open>float()\<close>\<close>

subsection \<open>Rounding to binary64\<close>

fun bit_length :: "nat \<Rightarrow> nat" where
  "bit_length n = (if n = 0 then 0 else Suc (bit_length (n div 2)))"

text \<open>The integer \<open>e\<close> with \<open>2 ^ e \<le> num / den < 2 ^ (e + 1)\<close>, for positive arguments.\<close>

definition floor_log2 :: "nat \<Rightarrow> nat \<Rightarrow> int" where
  "floor_log2 num den =
     (let e0 = int (bit_length num) - int (bit_length den)
      in if (if 0 \<le> e0 then den * 2 ^ nat e0 \<le> num else den \<le> num * 2 ^ nat (- e0))
         then e0 else e0 - 1)"

text \<open>The integer nearest to \<open>n / d\<close>, a tie going to the even one.\<close>

definition round_half_even :: "nat \<Rightarrow> nat \<Rightarrow> nat" where
  "round_half_even n d =
     (let q = n div d; r = n mod d
      in if 2 * r < d then q
         else if d < 2 * r then q + 1
         else if even q then q else q + 1)"

text \<open>
  The binary64 value nearest to \<open>num / den\<close> (53 significant bits, exponents from
  \<open>-1022\<close>, subnormal numbers below), or \<open>None\<close> when the rounded value is beyond the
  largest finite one.
\<close>

definition round_double :: "nat \<Rightarrow> nat \<Rightarrow> rat option" where
  "round_double num den =
     (if num = 0 then Some 0
      else
        let e = max (floor_log2 num den) (- 1022);
            sh = 52 - e;
            m = (if 0 \<le> sh then round_half_even (num * 2 ^ nat sh) den
                 else round_half_even num (den * 2 ^ nat (- sh)));
            v = (if 0 \<le> sh then Fract (int m) (2 ^ nat sh) else of_nat (m * 2 ^ nat (- sh)))
        in if 2 ^ 1024 \<le> v then None else Some v)"

text \<open>The float denoted by the decimal numeral \<open>m * 10 ^ x\<close> with the given sign.\<close>

definition dec_to_double :: "bool \<Rightarrow> nat \<Rightarrow> int \<Rightarrow> pyfloat" where
  "dec_to_double neg m x =
     (case (if 0 \<le> x then round_double (m * 10 ^ nat x) 1 else round_double m (10 ^ nat (- x))) of
        None \<Rightarrow> (if neg then MinusInf else PlusInf)
      | Some v \<Rightarrow> Finite (if neg then - v else v))"

text \<open>\<open>a < b\<close> on floats: false as soon as one side is a NaN.\<close>

fun float_less :: "pyfloat \<Rightarrow> pyfloat \<Rightarrow> bool" where
  "float_less (Finite a) (Finite b) = (a < b)"
| "float_less (Finite a) PlusInf = True"
| "float_less MinusInf (Finite b) = True"
| "float_less MinusInf PlusInf = True"
| "float_less _ _ = False"

subsection \<open>Reading a float from a string\<close>

definition is_space :: "char \<Rightarrow> bool" where
  "is_space c = (c \<in> set [CHR '' '', CHR 0x09, CHR 0x0A, CHR 0x0B, CHR 0x0C, CHR 0x0D])"

definition is_digit :: "char \<Rightarrow> bool" where
  "is_digit c = (c \<in> set ''0123456789'')"

definition digit_val :: "char \<Rightarrow> nat" where
  "digit_val c = of_char c - 48"

definition digits_val :: "string \<Rightarrow> nat" where
  "digits_val ds = foldl (\<lambda>n c. 10 * n + digit_val c) 0 ds"

definition to_lower :: "char \<Rightarrow> char" where
  "to_lower c =
     (if c \<in> set ''ABCDEFGHIJKLMNOPQRSTUVWXYZ'' then char_of (of_char c + (32::nat)) else c)"

definition strip :: "string \<Rightarrow> string" where
  "strip s = rev (dropWhile is_space (rev (dropWhile is_space s)))"

text \<open>
  An underscore is accepted between two digits only and is dropped; the first argument is
  the character before the one looked at.
\<close>

fun remove_underscores :: "char \<Rightarrow> string \<Rightarrow> string option" where
  "remove_underscores prev [] = (if prev = CHR ''_'' then None else Some [])"
| "remove_underscores prev (c # cs) =
     (if c = CHR ''_'' then (if is_digit prev then remove_underscores c cs else None)
      else if prev = CHR ''_'' \<and> \<not> is_digit c then None
      else map_option ((#) c) (remove_underscores c cs))"

definition parse_sign :: "string \<Rightarrow> bool \<times> string" where
  "parse_sign s =
     (case s of
        [] \<Rightarrow> (False, s)
      | c # cs \<Rightarrow> if c = CHR ''-'' then (True, cs) else if c = CHR ''+'' then (False, cs)
                  else (False, s))"

text \<open>What may follow the mantissa: nothing, or \<open>e\<close>, an optional sign and digits.\<close>

definition parse_exponent :: "string \<Rightarrow> int option" where
  "parse_exponent s =
     (case s of
        [] \<Rightarrow> Some 0
      | c # cs \<Rightarrow>
          if c = CHR ''e'' \<or> c = CHR ''E'' then
            (case parse_sign cs of (neg, ds) \<Rightarrow>
               if ds \<noteq> [] \<and> list_all is_digit ds
               then Some (if neg then - int (digits_val ds) else int (digits_val ds))
               else None)
          else None)"

text \<open>
  An unsigned decimal numeral: digits, an optional point and digits (at least one digit
  in all), an optional exponent. The result \<open>(m, x)\<close> denotes \<open>m * 10 ^ x\<close>.
\<close>

definition parse_decimal :: "string \<Rightarrow> (nat \<times> int) option" where
  "parse_decimal s =
     (let ip = takeWhile is_digit s;
          r1 = dropWhile is_digit s;
          fp = (case r1 of [] \<Rightarrow> [] | c # cs \<Rightarrow> if c = CHR ''.'' then takeWhile is_digit cs else []);
          r2 = (case r1 of [] \<Rightarrow> [] | c # cs \<Rightarrow> if c = CHR ''.'' then dropWhile is_digit cs else r1)
      in if ip = [] \<and> fp = [] then None
         else (case parse_exponent r2 of
                 None \<Rightarrow> None
               | Some x \<Rightarrow> Some (digits_val (ip @ fp), x - int (length fp))))"

text \<open>
  \<open>float(s)\<close> for a string: underscores between digits are dropped, white space around
  the text is stripped, and what remains is a sign followed by \<open>inf\<close>, \<open>infinity\<close> or
  \<open>nan\<close> in any case, or by a decimal numeral, which is rounded to the nearest float.
  \<open>None\<close> stands for a string that is no float.
\<close>

definition float_of_string :: "string \<Rightarrow> pyfloat option" where
  "float_of_string s0 =
     (case remove_underscores (CHR 0x00) s0 of
        None \<Rightarrow> None
      | Some s1 \<Rightarrow>
          (case parse_sign (strip s1) of (neg, body) \<Rightarrow>
             let low = map to_lower body
             in if low = ''inf'' \<or> low = ''infinity'' then Some (if neg then MinusInf else PlusInf)
                else if low = ''nan'' then Some NaN
                else map_option (\<lambda>(m, x). dec_to_double neg m x) (parse_decimal body)))"

text \<open>
  \<open>float(v)\<close>: a float is returned as it is, an integer is rounded (\<open>OverflowError\<close>
  when it is too large), a string is parsed (\<open>ValueError\<close> when it is no float), and
  \<open>None\<close>, a list or a dictionary raise \<open>TypeError\<close>.
\<close>

fun py_float :: "pyval \<Rightarrow> error + pyfloat" where
  "py_float (PFloat f) = Inr f"
| "py_float (PBool b) = Inr (Finite (if b then 1 else 0))"
| "py_float (PInt i) =
     (case round_double (nat \<bar>i\<bar>) 1 of
        None \<Rightarrow> Inl OverflowError
      | Some v \<Rightarrow> Inr (Finite (if i < 0 then - v else v)))"
| "py_float (PStr s) = (case float_of_string s of None \<Rightarrow> Inl ValueError | Some f \<Rightarrow> Inr f)"
| "py_float PNone = Inl TypeError"
| "py_float (PList xs) = Inl TypeError"
| "py_float (PDict d) = Inl TypeError"

section \<open>\<open>cloudmarker/events/azwebapptlsevent.py\<close>\<close>

text \<open>
  What forcing a generator gives: the values it yields, in order, and the exception that
  ends it, if one does.
\<close>

type_synonym gen_result = "pyval list \<times> error option"

text \<open>
  Modelled from the spec: \<open>util.merge_dicts\<close>, whose source is not part of the files at
  hand. The spec describes it as a shallow copy of the original keys to which the
  overrides are then applied, the original mapping not being mutated. Python passes the
  dictionaries by reference, so the model returns the new mapping together with the
  contents of the first argument after the call.
\<close>

definition merge_dicts :: "dict \<Rightarrow> dict \<Rightarrow> dict \<times> dict" where
  "merge_dicts a overrides = (fold (\<lambda>(k, v). AList.update k v) overrides a, a)"

text \<open>
  The class \<open>AzWebAppTLSEvent\<close>: its only attribute is \<open>_min_tls_version\<close>, a
  float according to the docstring of \<open>__init__\<close>.
\<close>

record AzWebAppTLSEvent =
  min_tls_version :: pyfloat

text \<open>The default of \<open>__init__\<close>, the literal \<open>1.2\<close>.\<close>

definition default_min_tls_version :: pyfloat where
  "default_min_tls_version = dec_to_double False 12 (- 1)"

definition AzWebAppTLSEvent_init :: "pyfloat \<Rightarrow> AzWebAppTLSEvent" where
  "AzWebAppTLSEvent_init x = \<lparr>min_tls_version = x\<rparr>"

text \<open>
  \<open>_get_azure_web_app_tls_event(com, ext, min_tls_version)\<close>, a generator, forced.
  \<open>util.friendly_string\<close> is not part of the files at hand and is the parameter
  \<open>friendly_string\<close>, a function that returns a value or raises; the conversion of a
  value to text that \<open>str.format\<close> and \<open>str\<close> apply is the parameter \<open>py_str\<close>.
  The first statement calls \<open>com.get\<close>, which raises when \<open>com\<close> is no dictionary,
  and then \<open>util.friendly_string\<close> on the value found; an exception of either ends
  the generator before anything is yielded. The second component of the result is the
  contents of \<open>ext\<close> after the call. The call of \<open>_log.info\<close> before the \<open>yield\<close> does not
  change the result and is left out.
\<close>

definition get_azure_web_app_tls_event ::
  "(pyval \<Rightarrow> error + pyval) \<Rightarrow> (pyval \<Rightarrow> string) \<Rightarrow> pyval \<Rightarrow> dict \<Rightarrow> pyfloat
     \<Rightarrow> gen_result \<times> dict" where
  "get_azure_web_app_tls_event friendly_string py_str com ext threshold =
     (case py_get com ''cloud_type'' of
        Inl e \<Rightarrow> (([], Some e), ext)
      | Inr cloud_type \<Rightarrow>
          (case friendly_string cloud_type of
             Inl e \<Rightarrow> (([], Some e), ext)
           | Inr friendly_cloud_type \<Rightarrow>
               (case py_get com ''reference'' of
                  Inl e \<Rightarrow> (([], Some e), ext)
                | Inr reference \<Rightarrow>
                    let description =
                          py_str friendly_cloud_type @ '' web app '' @ py_str reference
                            @ '' has insecure minimum TLS version.'';
                        recommendation =
                          ''Check '' @ py_str friendly_cloud_type @ '' web app ''
                            @ py_str reference
                            @ '' and ensure the minimum TLS version is set to ''
                            @ py_str (PFloat threshold) @ ''.''
                    in (case merge_dicts ext [(''record_type'', PStr ''web_app_tls_event'')] of
                          (merged, ext_after) \<Rightarrow>
                            (([PDict
                                [(''ext'', PDict merged),
                                 (''com'', PDict
                                    [(''cloud_type'', cloud_type),
                                     (''record_type'', PStr ''web_app_tls_event''),
                                     (''reference'', reference),
                                     (''description'', PStr description),
                                     (''recommendation'', PStr recommendation)])]],
                              None),
                             ext_after)))))"

text \<open>
  \<open>AzWebAppTLSEvent.eval(self, record)\<close>, a generator, forced: nothing is yielded when
  the record has no \<open>ext\<close> bucket or the bucket has another record type; otherwise the
  minimum TLS version of the bucket is converted by \<open>float\<close> and compared with the
  threshold.
\<close>

definition AzWebAppTLSEvent_eval ::
  "(pyval \<Rightarrow> error + pyval) \<Rightarrow> (pyval \<Rightarrow> string) \<Rightarrow> AzWebAppTLSEvent \<Rightarrow> pyval
     \<Rightarrow> gen_result" where
  "AzWebAppTLSEvent_eval friendly_string py_str self record =
     (case py_get record ''com'' of
        Inl e \<Rightarrow> ([], Some e)
      | Inr com \<Rightarrow>
          (case py_get record ''ext'' of
             Inl e \<Rightarrow> ([], Some e)
           | Inr ext \<Rightarrow>
               if ext = PNone then ([], None)
               else
                 (case py_get ext ''record_type'' of
                    Inl e \<Rightarrow> ([], Some e)
                  | Inr record_type \<Rightarrow>
                      if record_type \<noteq> PStr ''web_app_config'' then ([], None)
                      else
                        (case py_get ext ''min_tls_version'' of
                           Inl e \<Rightarrow> ([], Some e)
                         | Inr version \<Rightarrow>
                             (case py_float version of
                                Inl e \<Rightarrow> ([], Some e)
                              | Inr x \<Rightarrow>
                                  if float_less x (min_tls_version self)
                                  then fst (get_azure_web_app_tls_event friendly_string py_str com
                                              (case ext of PDict d \<Rightarrow> d | _ \<Rightarrow> [])
                                              (min_tls_version self))
                                  else ([], None))))))"

text \<open>\<open>AzWebAppTLSEvent.done(self)\<close> does nothing.\<close>

definition AzWebAppTLSEvent_done :: "AzWebAppTLSEvent \<Rightarrow> error option \<times> AzWebAppTLSEvent" where
  "AzWebAppTLSEvent_done self = (None, self)"

section \<open>\<open>cloudmarker/workers.py\<close>\<close>

text \<open>
  The plugin objects that the workers receive. A method takes the state of the object
  and returns the new one; \<open>read\<close> and \<open>eval\<close> return generators, which the workers
  force. The fields carry the name of their plugin kind before the name of the method.
\<close>

record 's cloud_plugin =
  cloud_read :: "'s \<Rightarrow> gen_result \<times> 's"
  cloud_done :: "'s \<Rightarrow> error option \<times> 's"

record 's store_plugin =
  store_write :: "'s \<Rightarrow> pyval \<Rightarrow> error option \<times> 's"
  store_done :: "'s \<Rightarrow> error option \<times> 's"

record 's check_plugin =
  check_eval :: "'s \<Rightarrow> pyval \<Rightarrow> gen_result \<times> 's"
  check_done :: "'s \<Rightarrow> error option \<times> 's"

text \<open>
  A queue object is identified by a number. What a worker does, in order: a call of
  \<open>_logger.info\<close> with the formatted message, a \<open>get\<close> on the input queue with
  the item received, a \<open>put\<close> of an item on an output queue, and the calls of the
  plugin's methods.
\<close>

type_synonym queue = nat

datatype action =
    Log string
  | Get pyval
  | Put queue pyval
  | CallRead
  | CallEval pyval
  | CallWrite pyval
  | CallDone

text \<open>
  How a run ends: the function returns, an exception leaves it, or it waits for ever in
  \<open>input_queue.get()\<close> on a queue that receives nothing more.
\<close>

datatype outcome = Returned | Raised error | Blocked

text \<open>\<open>for q in output_queues: q.put(record)\<close>\<close>

definition put_all :: "queue list \<Rightarrow> pyval \<Rightarrow> action list" where
  "put_all output_queues record = map (\<lambda>q. Put q record) output_queues"

text \<open>
  \<open>cloud_worker(worker_name, cloud_plugin, output_queues)\<close>. The records that \<open>read\<close>
  yields before an exception ends it have been put on the queues by then.
\<close>

definition cloud_worker ::
  "string \<Rightarrow> 's cloud_plugin \<Rightarrow> queue list \<Rightarrow> 's \<Rightarrow> action list \<times> outcome" where
  "cloud_worker worker_name cloud_plugin output_queues s =
     (case cloud_read cloud_plugin s of
        ((records, err), s1) \<Rightarrow>
          let t = [Log (worker_name @ '': Started''), CallRead]
                    @ concat (map (put_all output_queues) records)
          in (case err of
                Some e \<Rightarrow> (t, Raised e)
              | None \<Rightarrow>
                  (case cloud_done cloud_plugin s1 of
                     (Some e, s2) \<Rightarrow> (t @ [CallDone], Raised e)
                   | (None, s2) \<Rightarrow>
                       (t @ [CallDone, Log (worker_name @ '': Stopped'')], Returned))))"

text \<open>
  The \<open>while True\<close> loop of \<open>store_worker\<close>. The list holds the items that the input
  queue delivers, in order; when it is used up, \<open>get\<close> never returns. \<open>Returned\<close>
  is the \<open>break\<close>.
\<close>

fun store_loop :: "'s store_plugin \<Rightarrow> pyval list \<Rightarrow> 's \<Rightarrow> action list \<times> outcome" where
  "store_loop store_plugin [] s = ([], Blocked)"
| "store_loop store_plugin (record # rest) s =
     (if record = PNone then
        (case store_done store_plugin s of
           (Some e, s') \<Rightarrow> ([Get record, CallDone], Raised e)
         | (None, s') \<Rightarrow> ([Get record, CallDone], Returned))
      else
        (case store_write store_plugin s record of
           (Some e, s') \<Rightarrow> ([Get record, CallWrite record], Raised e)
         | (None, s') \<Rightarrow>
             (case store_loop store_plugin rest s' of
                (t, out) \<Rightarrow> (Get record # CallWrite record # t, out))))"

text \<open>\<open>store_worker(worker_name, store_plugin, input_queue)\<close>\<close>

definition store_worker ::
  "string \<Rightarrow> 's store_plugin \<Rightarrow> pyval list \<Rightarrow> 's \<Rightarrow> action list \<times> outcome" where
  "store_worker worker_name store_plugin input_queue s =
     (case store_loop store_plugin input_queue s of
        (t, out) \<Rightarrow>
          (Log (worker_name @ '': Started'') # t
             @ (if out = Returned then [Log (worker_name @ '': Stopped'')] else []),
           out))"

text \<open>The \<open>while True\<close> loop of \<open>check_worker\<close>.\<close>

fun check_loop ::
  "'s check_plugin \<Rightarrow> pyval list \<Rightarrow> queue list \<Rightarrow> 's \<Rightarrow> action list \<times> outcome" where
  "check_loop check_plugin [] output_queues s = ([], Blocked)"
| "check_loop check_plugin (record # rest) output_queues s =
     (if record = PNone then
        (case check_done check_plugin s of
           (Some e, s') \<Rightarrow> ([Get record, CallDone], Raised e)
         | (None, s') \<Rightarrow> ([Get record, CallDone], Returned))
      else
        (case check_eval check_plugin s record of
           ((event_records, Some e), s') \<Rightarrow>
             (Get record # CallEval record # concat (map (put_all output_queues) event_records),
              Raised e)
         | ((event_records, None), s') \<Rightarrow>
             (case check_loop check_plugin rest output_queues s' of
                (t, out) \<Rightarrow>
                  (Get record # CallEval record
                     # concat (map (put_all output_queues) event_records) @ t,
                   out))))"

text \<open>\<open>check_worker(worker_name, check_plugin, input_queue, output_queues)\<close>\<close>

definition check_worker ::
  "string \<Rightarrow> 's check_plugin \<Rightarrow> pyval list \<Rightarrow> queue list \<Rightarrow> 's \<Rightarrow> action list \<times> outcome" where
  "check_worker worker_name check_plugin input_queue output_queues s =
     (case check_loop check_plugin input_queue output_queues s of
        (t, out) \<Rightarrow>
          (Log (worker_name @ '': Started'') # t
             @ (if out = Returned then [Log (worker_name @ '': Stopped'')] else []),
           out))"

text \<open>The TLS plugin as the check plugin that \<open>check_worker\<close> wraps.\<close>

definition AzWebAppTLSEvent_plugin ::
  "(pyval \<Rightarrow> error + pyval) \<Rightarrow> (pyval \<Rightarrow> string) \<Rightarrow> AzWebAppTLSEvent check_plugin" where
  "AzWebAppTLSEvent_plugin friendly_string py_str =
     \<lparr>check_eval = (\<lambda>self record. (AzWebAppTLSEvent_eval friendly_string py_str self record, self)),
      check_done = AzWebAppTLSEvent_done\<rparr>"

section \<open>Observations on a run\<close>

text \<open>The items put on queue \<open>q\<close>, the items put on any queue, and the items read.\<close>

fun puts_to :: "queue \<Rightarrow> action list \<Rightarrow> pyval list" where
  "puts_to q [] = []"
| "puts_to q (Put q' r # t) = (if q' = q then r # puts_to q t else puts_to q t)"
| "puts_to q (_ # t) = puts_to q t"

fun all_puts :: "action list \<Rightarrow> pyval list" where
  "all_puts [] = []"
| "all_puts (Put q r # t) = r # all_puts t"
| "all_puts (_ # t) = all_puts t"

fun gets :: "action list \<Rightarrow> pyval list" where
  "gets [] = []"
| "gets (Get r # t) = r # gets t"
| "gets (_ # t) = gets t"

text \<open>How often \<open>done()\<close> is called.\<close>

definition done_calls :: "action list \<Rightarrow> nat" where
  "done_calls t = length (filter (\<lambda>a. a = CallDone) t)"

text \<open>
  The event records that the check plugin yields to \<open>check_worker\<close> during a run, in
  order: those of each record read before the end-of-stream marker, up to the first
  exception.
\<close>

fun produced :: "'s check_plugin \<Rightarrow> pyval list \<Rightarrow> 's \<Rightarrow> pyval list" where
  "produced check_plugin [] s = []"
| "produced check_plugin (record # rest) s =
     (if record = PNone then []
      else
        (case check_eval check_plugin s record of
           ((event_records, Some e), s') \<Rightarrow> event_records
         | ((event_records, None), s') \<Rightarrow> event_records @ produced check_plugin rest s'))"

text \<open>
  Reading a record: the value under a key of a dictionary, and the value under a key of
  one of its buckets. \<open>None\<close> stands for a key that is absent and for an object that is
  no dictionary.
\<close>

definition bucket :: "pyval \<Rightarrow> string \<Rightarrow> pyval option" where
  "bucket record k = (case record of PDict r \<Rightarrow> map_of r k | _ \<Rightarrow> None)"

definition field :: "pyval \<Rightarrow> string \<Rightarrow> string \<Rightarrow> pyval option" where
  "field record b k = (case bucket record b of None \<Rightarrow> None | Some v \<Rightarrow> bucket v k)"

section \<open>Instances for concrete runs\<close>

text \<open>
  The two parameters of the TLS plugin at which the model is evaluated on concrete
  records: a \<open>friendly_string\<close> that knows no phrase, so that it returns its argument,
  and that raises \<open>TypeError\<close> on a list or a dictionary, which cannot be looked up in
  a table of phrases; and a conversion to text that is the one of Python on strings and
  on \<open>None\<close>.
\<close>

definition friendly_string_example :: "pyval \<Rightarrow> error + pyval" where
  "friendly_string_example technical_string =
     (case technical_string of
        PList xs \<Rightarrow> Inl TypeError
      | PDict d \<Rightarrow> Inl TypeError
      | _ \<Rightarrow> Inr technical_string)"

definition py_str_example :: "pyval \<Rightarrow> string" where
  "py_str_example v = (case v of PStr s \<Rightarrow> s | PNone \<Rightarrow> ''None'' | _ \<Rightarrow> ''...'')"

text \<open>
  Two records: a web app configuration with minimum TLS version \<open>1.1\<close> and a record of
  another kind.
\<close>

definition insecure_record :: pyval where
  "insecure_record =
     PDict [(''ext'', PDict [(''record_type'', PStr ''web_app_config''),
                             (''min_tls_version'', PStr ''1.1'')]),
            (''com'', PDict [(''cloud_type'', PStr ''azure''), (''reference'', PStr ''app1'')])]"

definition other_record :: pyval where
  "other_record = PDict [(''ext'', PDict [(''record_type'', PStr ''other'')])]"

text \<open>
  A cloud plugin whose state is the list of records that \<open>read\<close> yields, and a store
  plugin that keeps what it is given; neither raises.
\<close>

definition list_cloud_plugin :: "pyval list cloud_plugin" where
  "list_cloud_plugin =
     \<lparr>cloud_read = (\<lambda>s. ((s, None), [])), cloud_done = (\<lambda>s. (None, s))\<rparr>"

definition list_store_plugin :: "pyval list store_plugin" where
  "list_store_plugin =
     \<lparr>store_write = (\<lambda>s r. (None, s @ [r])), store_done = (\<lambda>s. (None, s))\<rparr>"

text \<open>
  The event record for \<open>insecure_record\<close>, and a web app configuration whose minimum
  TLS version is no number.
\<close>

definition insecure_event :: pyval where
  "insecure_event =
     PDict [(''ext'', PDict [(''record_type'', PStr ''web_app_tls_event''),
                             (''min_tls_version'', PStr ''1.1'')]),
            (''com'', PDict [(''cloud_type'', PStr ''azure''),
                             (''record_type'', PStr ''web_app_tls_event''),
                             (''reference'', PStr ''app1''),
                             (''description'',
                              PStr ''azure web app app1 has insecure minimum TLS version.''),
                             (''recommendation'',
                              PStr (''Check azure web app app1 and ensure the minimum ''
                                    @ ''TLS version is set to ....''))])]"

definition malformed_ext :: dict where
  "malformed_ext =
     [(''record_type'', PStr ''web_app_config''), (''min_tls_version'', PStr ''TLSv1.2'')]"

text \<open>Plugins whose \<open>done()\<close> raises.\<close>

definition failing_cloud_plugin :: "unit cloud_plugin" where
  "failing_cloud_plugin =
     \<lparr>cloud_read = (\<lambda>s. (([], None), s)),
      cloud_done = (\<lambda>s. (Some (PluginError ''cleanup''), s))\<rparr>"

definition failing_store_plugin :: "unit store_plugin" where
  "failing_store_plugin =
     \<lparr>store_write = (\<lambda>s r. (None, s)),
      store_done = (\<lambda>s. (Some (PluginError ''cleanup''), s))\<rparr>"

definition failing_check_plugin :: "unit check_plugin" where
  "failing_check_plugin =
     \<lparr>check_eval = (\<lambda>s r. (([], None), s)),
      check_done = (\<lambda>s. (Some (PluginError ''cleanup''), s))\<rparr>"

section \<open>The TLS plugin\<close>

subsection \<open>Auxiliary facts\<close>

lemmas float_parse_defs =
  float_of_string_def strip_def is_space_def is_digit_def parse_sign_def to_lower_def
  parse_decimal_def parse_exponent_def digits_val_def digit_val_def

lemmas float_round_defs =
  dec_to_double_def round_double_def floor_log2_def round_half_even_def Let_def
  Fract_of_int_quotient

lemma default_min_tls_version_value:
  "default_min_tls_version = Finite (5404319552844595 / 4503599627370496)"
  by (simp add: default_min_tls_version_def float_round_defs)

lemma float_of_string_1_1:
  "float_of_string ''1.1'' = Some (Finite (2476979795053773 / 2251799813685248))"
  by (simp add: float_parse_defs float_round_defs)

lemma float_of_string_1_2:
  "float_of_string ''1.2'' = Some (Finite (5404319552844595 / 4503599627370496))"
  by (simp add: float_parse_defs float_round_defs)

lemma float_of_string_1_3:
  "float_of_string ''1.3'' = Some (Finite (5854679515581645 / 4503599627370496))"
  by (simp add: float_parse_defs float_round_defs)

lemma float_of_string_no_float: "float_of_string ''TLSv1.2'' = None"
  by (simp add: float_parse_defs)

text \<open>\<open>eval\<close> on a record whose \<open>ext\<close> bucket is a web app configuration.\<close>

lemma eval_web_app_config:
  assumes "map_of r ''ext'' = Some (PDict ext)"
    and "map_of ext ''record_type'' = Some (PStr ''web_app_config'')"
  shows "AzWebAppTLSEvent_eval fs ps self (PDict r) =
           (case py_float (dict_get ext ''min_tls_version'') of
              Inl e \<Rightarrow> ([], Some e)
            | Inr x \<Rightarrow>
                if float_less x (min_tls_version self)
                then fst (get_azure_web_app_tls_event fs ps (dict_get r ''com'') ext
                            (min_tls_version self))
                else ([], None))"
  using assms by (simp add: AzWebAppTLSEvent_eval_def dict_get_def split: sum.split)

lemma map_of_merge_dicts:
  "map_of (fst (merge_dicts a [(k, v)])) k' = (if k' = k then Some v else map_of a k')"
  by (simp add: merge_dicts_def update_conv')

lemma get_event_no_dict:
  "(\<forall>c. com \<noteq> PDict c) \<Longrightarrow>
     get_azure_web_app_tls_event fs ps com ext thr = (([], Some AttributeError), ext)"
  by (cases com) (simp_all add: get_azure_web_app_tls_event_def)

lemma get_event_dict:
  assumes "fs (dict_get c ''cloud_type'') = Inr f"
  shows "\<exists>new_ext ev_com.
     get_azure_web_app_tls_event fs ps (PDict c) ext thr =
       (([PDict [(''ext'', PDict new_ext), (''com'', PDict ev_com)]], None), ext)
     \<and> new_ext = fst (merge_dicts ext [(''record_type'', PStr ''web_app_tls_event'')])
     \<and> map_of ev_com ''record_type'' = Some (PStr ''web_app_tls_event'')"
  using assms by (simp add: get_azure_web_app_tls_event_def Let_def merge_dicts_def)

lemma get_event_friendly_string_raises:
  "fs (dict_get c ''cloud_type'') = Inl e \<Longrightarrow>
     get_azure_web_app_tls_event fs ps (PDict c) ext thr = (([], Some e), ext)"
  by (simp add: get_azure_web_app_tls_event_def)

lemma get_event_yields:
  assumes "ev \<in> set (fst (fst (get_azure_web_app_tls_event fs ps com ext thr)))"
  shows "\<exists>new_ext ev_com.
     get_azure_web_app_tls_event fs ps com ext thr = (([ev], None), ext)
     \<and> ev = PDict [(''ext'', PDict new_ext), (''com'', PDict ev_com)]
     \<and> new_ext = fst (merge_dicts ext [(''record_type'', PStr ''web_app_tls_event'')])"
proof (cases "\<exists>c. com = PDict c")
  case True
  then obtain c where c: "com = PDict c" ..
  show ?thesis
  proof (cases "fs (dict_get c ''cloud_type'')")
    case (Inl e)
    then show ?thesis
      using assms by (simp add: c get_event_friendly_string_raises)
  next
    case (Inr f)
    then show ?thesis
      using assms get_event_dict [where fs = fs and c = c and f = f and ps = ps
          and ext = ext and thr = thr]
      by (auto simp: c)
  qed
next
  case False
  then show ?thesis
    using assms by (simp add: get_event_no_dict)
qed

subsection \<open>Records that are not applicable\<close>

text \<open>
  Claim C7. For every record that has no \<open>ext\<close> key, \<open>eval\<close> yields no event record and
  raises no error: the generator ends normally without a value.
\<close>

theorem eval_without_ext_yields_nothing:
  "map_of r ''ext'' = None \<Longrightarrow>
     AzWebAppTLSEvent_eval fs ps self (PDict r) = ([], None)"
  by (simp add: AzWebAppTLSEvent_eval_def dict_get_def)

theorem eval_without_ext_yields_nothing_witness:
  "map_of [(''com'', PDict [(''reference'', PStr ''app1'')])] ''ext'' = None
   \<and> AzWebAppTLSEvent_eval friendly_string_example py_str_example
        (AzWebAppTLSEvent_init default_min_tls_version)
        (PDict [(''com'', PDict [(''reference'', PStr ''app1'')])]) = ([], None)"
  using eval_without_ext_yields_nothing
    [of "[(''com'', PDict [(''reference'', PStr ''app1'')])]" friendly_string_example
      py_str_example "AzWebAppTLSEvent_init default_min_tls_version"]
  by simp

text \<open>
  Claim C9. For every record whose \<open>ext\<close> bucket has record type \<open>web_app_config\<close> but
  no key \<open>min_tls_version\<close>, \<open>eval\<close> raises an error: the absent value is read as
  \<open>None\<close> and handed to \<open>float\<close>, which raises \<open>TypeError\<close>. The absence is not taken
  as a reason to skip the record, unlike the absence of the \<open>ext\<close> bucket.
\<close>

theorem eval_without_min_tls_version_raises:
  assumes "map_of r ''ext'' = Some (PDict ext)"
    and "map_of ext ''record_type'' = Some (PStr ''web_app_config'')"
    and "map_of ext ''min_tls_version'' = None"
  shows "AzWebAppTLSEvent_eval fs ps self (PDict r) = ([], Some TypeError)"
  using assms by (simp add: eval_web_app_config dict_get_def)

theorem eval_without_min_tls_version_raises_witness:
  "map_of [(''ext'', PDict [(''record_type'', PStr ''web_app_config'')])] ''ext''
     = Some (PDict [(''record_type'', PStr ''web_app_config'')])
   \<and> map_of [(''record_type'', PStr ''web_app_config'')] ''record_type''
     = Some (PStr ''web_app_config'')
   \<and> map_of [(''record_type'', PStr ''web_app_config'')] ''min_tls_version'' = None
   \<and> AzWebAppTLSEvent_eval friendly_string_example py_str_example
        (AzWebAppTLSEvent_init default_min_tls_version)
        (PDict [(''ext'', PDict [(''record_type'', PStr ''web_app_config'')])])
     = ([], Some TypeError)"
  using eval_without_min_tls_version_raises
    [of "[(''ext'', PDict [(''record_type'', PStr ''web_app_config'')])]"
      "[(''record_type'', PStr ''web_app_config'')]" friendly_string_example py_str_example
      "AzWebAppTLSEvent_init default_min_tls_version"]
  by simp

subsection \<open>Applicable records\<close>

text \<open>
  Claim C10. For every record whose \<open>ext\<close> bucket has record type \<open>web_app_config\<close> and
  a minimum TLS version that \<open>float\<close> reads as a value strictly below the threshold:
  when the record has no key \<open>com\<close>, forcing the generator raises \<open>AttributeError\<close>
  (the \<open>get\<close> on the absent bucket) and nothing has been yielded before; and the
  generator ends without an exception only when \<open>com\<close> is present (and a dictionary).
\<close>

theorem eval_requires_com_bucket:
  assumes "map_of r ''ext'' = Some (PDict ext)"
    and "map_of ext ''record_type'' = Some (PStr ''web_app_config'')"
    and "py_float (dict_get ext ''min_tls_version'') = Inr x"
    and "float_less x (min_tls_version self)"
  shows "(map_of r ''com'' = None \<longrightarrow>
            AzWebAppTLSEvent_eval fs ps self (PDict r) = ([], Some AttributeError))
         \<and> (snd (AzWebAppTLSEvent_eval fs ps self (PDict r)) = None
              \<longrightarrow> (\<exists>c. map_of r ''com'' = Some (PDict c)))"
proof -
  let ?com = "dict_get r ''com''"
  have ev: "AzWebAppTLSEvent_eval fs ps self (PDict r) =
              fst (get_azure_web_app_tls_event fs ps ?com ext (min_tls_version self))"
    using assms by (simp add: eval_web_app_config)
  have no_dict: "AzWebAppTLSEvent_eval fs ps self (PDict r) = ([], Some AttributeError)"
    if "\<forall>c. ?com \<noteq> PDict c"
    using that by (simp add: ev get_event_no_dict)
  have absent: "\<forall>c. ?com \<noteq> PDict c" if "map_of r ''com'' = None"
    using that by (simp add: dict_get_def)
  have present: "\<exists>c. map_of r ''com'' = Some (PDict c)" if "\<exists>c. ?com = PDict c"
    using that by (auto simp: dict_get_def split: option.splits)
  show ?thesis
  proof (cases "\<exists>c. ?com = PDict c")
    case True
    then show ?thesis using present absent by auto
  next
    case False
    then show ?thesis using no_dict by simp
  qed
qed

theorem eval_requires_com_bucket_witness:
  "map_of [(''ext'', PDict [(''record_type'', PStr ''web_app_config''),
                            (''min_tls_version'', PStr ''1.1'')])] ''ext''
     = Some (PDict [(''record_type'', PStr ''web_app_config''),
                    (''min_tls_version'', PStr ''1.1'')])
   \<and> py_float (dict_get [(''record_type'', PStr ''web_app_config''),
                          (''min_tls_version'', PStr ''1.1'')] ''min_tls_version'')
     = Inr (Finite (2476979795053773 / 2251799813685248))
   \<and> float_less (Finite (2476979795053773 / 2251799813685248))
        (min_tls_version (AzWebAppTLSEvent_init default_min_tls_version))
   \<and> map_of [(''ext'', PDict [(''record_type'', PStr ''web_app_config''),
                              (''min_tls_version'', PStr ''1.1'')])] ''com'' = None
   \<and> AzWebAppTLSEvent_eval friendly_string_example py_str_example
        (AzWebAppTLSEvent_init default_min_tls_version)
        (PDict [(''ext'', PDict [(''record_type'', PStr ''web_app_config''),
                                 (''min_tls_version'', PStr ''1.1'')])])
     = ([], Some AttributeError)
   \<and> snd (AzWebAppTLSEvent_eval friendly_string_example py_str_example
            (AzWebAppTLSEvent_init default_min_tls_version)
            (PDict [(''ext'', PDict [(''record_type'', PStr ''web_app_config''),
                                     (''min_tls_version'', PStr ''1.1'')]),
                    (''com'', PDict [(''cloud_type'', PStr ''azure'')])])) = None
   \<and> map_of [(''ext'', PDict [(''record_type'', PStr ''web_app_config''),
                              (''min_tls_version'', PStr ''1.1'')]),
              (''com'', PDict [(''cloud_type'', PStr ''azure'')])] ''com''
     = Some (PDict [(''cloud_type'', PStr ''azure'')])"
  using
    eval_requires_com_bucket
      [where r = "[(''ext'', PDict [(''record_type'', PStr ''web_app_config''),
                                    (''min_tls_version'', PStr ''1.1'')])]"
         and ext = "[(''record_type'', PStr ''web_app_config''),
                     (''min_tls_version'', PStr ''1.1'')]"
         and x = "Finite (2476979795053773 / 2251799813685248)"
         and self = "AzWebAppTLSEvent_init default_min_tls_version"
         and fs = friendly_string_example and ps = py_str_example]
    eval_requires_com_bucket
      [where r = "[(''ext'', PDict [(''record_type'', PStr ''web_app_config''),
                                    (''min_tls_version'', PStr ''1.1'')]),
                   (''com'', PDict [(''cloud_type'', PStr ''azure'')])]"
         and ext = "[(''record_type'', PStr ''web_app_config''),
                     (''min_tls_version'', PStr ''1.1'')]"
         and x = "Finite (2476979795053773 / 2251799813685248)"
         and self = "AzWebAppTLSEvent_init default_min_tls_version"
         and fs = friendly_string_example and ps = py_str_example]
  by (simp add: dict_get_def float_of_string_1_1 AzWebAppTLSEvent_init_def
      default_min_tls_version_value AzWebAppTLSEvent_eval_def get_azure_web_app_tls_event_def
      merge_dicts_def friendly_string_example_def)

text \<open>
  Claim C3, as the code has it. With the default threshold \<open>1.2\<close> and a record whose
  \<open>ext\<close> bucket has record type \<open>web_app_config\<close>: when the minimum TLS version is
  \<open>"1.2"\<close> or \<open>"1.3"\<close>, \<open>eval\<close> yields nothing (the comparison is strict); when it is
  \<open>"1.1"\<close>, the \<open>com\<close> bucket of the record is a dictionary and
  \<open>util.friendly_string\<close> returns on its \<open>cloud_type\<close>, \<open>eval\<close> yields exactly one
  event record, whose \<open>com\<close> bucket has record type \<open>web_app_tls_event\<close>.
\<close>

theorem tls_threshold_boundary:
  assumes "map_of r ''ext'' = Some (PDict ext)"
    and "map_of ext ''record_type'' = Some (PStr ''web_app_config'')"
    and "map_of ext ''min_tls_version'' = Some (PStr v)"
    and "v = ''1.2'' \<or> v = ''1.3''
         \<or> v = ''1.1'' \<and> map_of r ''com'' = Some (PDict com)
             \<and> fs (dict_get com ''cloud_type'') = Inr f"
  shows "if v = ''1.1''
         then \<exists>ev. AzWebAppTLSEvent_eval fs ps (AzWebAppTLSEvent_init default_min_tls_version)
                      (PDict r) = ([ev], None)
                    \<and> field ev ''com'' ''record_type'' = Some (PStr ''web_app_tls_event'')
         else AzWebAppTLSEvent_eval fs ps (AzWebAppTLSEvent_init default_min_tls_version)
                (PDict r) = ([], None)"
proof -
  let ?self = "AzWebAppTLSEvent_init default_min_tls_version"
  have thr: "min_tls_version ?self = Finite (5404319552844595 / 4503599627370496)"
    by (simp add: AzWebAppTLSEvent_init_def default_min_tls_version_value)
  have get: "dict_get ext ''min_tls_version'' = PStr v"
    using assms(3) by (simp add: dict_get_def)
  from assms(4) consider "v = ''1.2''" | "v = ''1.3''"
    | "v = ''1.1''" "map_of r ''com'' = Some (PDict com)"
      "fs (dict_get com ''cloud_type'') = Inr f"
    by blast
  then show ?thesis
  proof cases
    case 1
    then show ?thesis
      using assms(1,2) by (simp add: eval_web_app_config get thr float_of_string_1_2)
  next
    case 2
    then show ?thesis
      using assms(1,2) by (simp add: eval_web_app_config get thr float_of_string_1_3)
  next
    case 3
    have com: "dict_get r ''com'' = PDict com"
      using 3(2) by (simp add: dict_get_def)
    obtain new_ext ev_com where
      ev: "get_azure_web_app_tls_event fs ps (PDict com) ext (min_tls_version ?self) =
             (([PDict [(''ext'', PDict new_ext), (''com'', PDict ev_com)]], None), ext)"
      and rt: "map_of ev_com ''record_type'' = Some (PStr ''web_app_tls_event'')"
      using 3(3) get_event_dict [where fs = fs and c = com and f = f and ps = ps
          and ext = ext and thr = "min_tls_version ?self"]
      by blast
    have "AzWebAppTLSEvent_eval fs ps ?self (PDict r) =
            ([PDict [(''ext'', PDict new_ext), (''com'', PDict ev_com)]], None)"
      using assms(1,2) 3(1) ev
      by (simp add: eval_web_app_config get com float_of_string_1_1 thr)
    moreover have "field (PDict [(''ext'', PDict new_ext), (''com'', PDict ev_com)])
                     ''com'' ''record_type'' = Some (PStr ''web_app_tls_event'')"
      using rt by (simp add: field_def bucket_def)
    ultimately show ?thesis using 3(1) by simp
  qed
qed

theorem tls_threshold_boundary_witness:
  "(\<exists>ev. AzWebAppTLSEvent_eval friendly_string_example py_str_example
            (AzWebAppTLSEvent_init default_min_tls_version)
            (PDict [(''ext'', PDict [(''record_type'', PStr ''web_app_config''),
                                     (''min_tls_version'', PStr ''1.1'')]),
                    (''com'', PDict [(''cloud_type'', PStr ''azure'')])]) = ([ev], None)
          \<and> field ev ''com'' ''record_type'' = Some (PStr ''web_app_tls_event''))
   \<and> friendly_string_example (dict_get [(''cloud_type'', PStr ''azure'')] ''cloud_type'')
     = Inr (PStr ''azure'')
   \<and> AzWebAppTLSEvent_eval friendly_string_example py_str_example
        (AzWebAppTLSEvent_init default_min_tls_version)
        (PDict [(''ext'', PDict [(''record_type'', PStr ''web_app_config''),
                                 (''min_tls_version'', PStr ''1.2'')])]) = ([], None)
   \<and> AzWebAppTLSEvent_eval friendly_string_example py_str_example
        (AzWebAppTLSEvent_init default_min_tls_version)
        (PDict [(''ext'', PDict [(''record_type'', PStr ''web_app_config''),
                                 (''min_tls_version'', PStr ''1.3'')])]) = ([], None)"
  using
    tls_threshold_boundary
      [where r = "[(''ext'', PDict [(''record_type'', PStr ''web_app_config''),
                                    (''min_tls_version'', PStr ''1.1'')]),
                   (''com'', PDict [(''cloud_type'', PStr ''azure'')])]"
         and ext = "[(''record_type'', PStr ''web_app_config''),
                     (''min_tls_version'', PStr ''1.1'')]"
         and v = "''1.1''" and com = "[(''cloud_type'', PStr ''azure'')]"
         and fs = friendly_string_example and f = "PStr ''azure''" and ps = py_str_example]
    tls_threshold_boundary
      [where r = "[(''ext'', PDict [(''record_type'', PStr ''web_app_config''),
                                    (''min_tls_version'', PStr ''1.2'')])]"
         and ext = "[(''record_type'', PStr ''web_app_config''),
                     (''min_tls_version'', PStr ''1.2'')]"
         and v = "''1.2''" and com = "[]"
         and fs = friendly_string_example and f = PNone and ps = py_str_example]
    tls_threshold_boundary
      [where r = "[(''ext'', PDict [(''record_type'', PStr ''web_app_config''),
                                    (''min_tls_version'', PStr ''1.3'')])]"
         and ext = "[(''record_type'', PStr ''web_app_config''),
                     (''min_tls_version'', PStr ''1.3'')]"
         and v = "''1.3''" and com = "[]"
         and fs = friendly_string_example and f = PNone and ps = py_str_example]
  by (simp add: dict_get_def friendly_string_example_def)

text \<open>
  The claim as stated fails on a record that has the \<open>ext\<close> bucket described and
  minimum TLS version \<open>"1.1"\<close> but no \<open>com\<close> bucket: no event is yielded, the generator
  raises \<open>AttributeError\<close>.
\<close>

theorem tls_threshold_boundary_counterexample:
  "AzWebAppTLSEvent_eval friendly_string_example py_str_example
     (AzWebAppTLSEvent_init default_min_tls_version)
     (PDict [(''ext'', PDict [(''record_type'', PStr ''web_app_config''),
                              (''min_tls_version'', PStr ''1.1'')])])
   = ([], Some AttributeError)"
  by (simp add: AzWebAppTLSEvent_eval_def dict_get_def float_of_string_1_1
      AzWebAppTLSEvent_init_def default_min_tls_version_value get_azure_web_app_tls_event_def)

text \<open>
  Claim C6. For every record on which \<open>eval\<close> yields an event: the record is a
  dictionary whose \<open>ext\<close> bucket is a dictionary; the \<open>ext\<close> bucket of the event is a
  mapping that has, under every key other than \<open>record_type\<close>, what the source bucket has
  (a value or nothing), and under \<open>record_type\<close> the value \<open>web_app_tls_event\<close>; and
  the contents of the source bucket after the call of
  \<open>_get_azure_web_app_tls_event\<close> are the contents before it.
\<close>

theorem event_ext_is_merged_copy:
  assumes "ev \<in> set (fst (AzWebAppTLSEvent_eval fs ps self record))"
  shows "\<exists>r ext new_ext.
           record = PDict r \<and> map_of r ''ext'' = Some (PDict ext)
           \<and> get_azure_web_app_tls_event fs ps (dict_get r ''com'') ext (min_tls_version self)
               = (([ev], None), ext)
           \<and> bucket ev ''ext'' = Some (PDict new_ext)
           \<and> (\<forall>k. map_of new_ext k =
                  (if k = ''record_type'' then Some (PStr ''web_app_tls_event'')
                   else map_of ext k))"
proof -
  obtain r where r: "record = PDict r"
    using assms by (cases "record") (auto simp: AzWebAppTLSEvent_eval_def)
  obtain ext where ext: "map_of r ''ext'' = Some (PDict ext)"
    using assms unfolding r
    by (cases "dict_get r ''ext''")
       (auto simp: AzWebAppTLSEvent_eval_def dict_get_def split: option.splits)
  let ?com = "dict_get r ''com''"
  let ?g = "get_azure_web_app_tls_event fs ps ?com ext (min_tls_version self)"
  have in_g: "ev \<in> set (fst (fst ?g))"
    using assms ext unfolding r
    by (auto simp: AzWebAppTLSEvent_eval_def dict_get_def split: sum.splits if_splits)
  obtain new_ext ev_com where
    g: "?g = (([ev], None), ext)"
    and ev: "ev = PDict [(''ext'', PDict new_ext), (''com'', PDict ev_com)]"
    and new_ext: "new_ext = fst (merge_dicts ext [(''record_type'', PStr ''web_app_tls_event'')])"
    using get_event_yields [OF in_g] by blast
  have "bucket ev ''ext'' = Some (PDict new_ext)"
    by (simp add: ev bucket_def)
  moreover have "\<forall>k. map_of new_ext k =
      (if k = ''record_type'' then Some (PStr ''web_app_tls_event'') else map_of ext k)"
    unfolding new_ext by (simp add: map_of_merge_dicts)
  ultimately show ?thesis using r ext g by blast
qed

lemma eval_insecure_record:
  "AzWebAppTLSEvent_eval friendly_string_example py_str_example
     (AzWebAppTLSEvent_init default_min_tls_version) insecure_record =
   ([PDict [(''ext'', PDict [(''record_type'', PStr ''web_app_tls_event''),
                             (''min_tls_version'', PStr ''1.1'')]),
            (''com'', PDict [(''cloud_type'', PStr ''azure''),
                             (''record_type'', PStr ''web_app_tls_event''),
                             (''reference'', PStr ''app1''),
                             (''description'',
                              PStr ''azure web app app1 has insecure minimum TLS version.''),
                             (''recommendation'',
                              PStr (''Check azure web app app1 and ensure the minimum ''
                                    @ ''TLS version is set to ....''))])]],
    None)"
  by (simp add: insecure_record_def AzWebAppTLSEvent_eval_def dict_get_def float_of_string_1_1
      AzWebAppTLSEvent_init_def default_min_tls_version_value get_azure_web_app_tls_event_def
      merge_dicts_def friendly_string_example_def py_str_example_def)

text \<open>
  When \<open>util.friendly_string\<close> raises, the generator ends with that exception and
  yields nothing; here on a \<open>cloud_type\<close> that is a list.
\<close>

lemma eval_friendly_string_raises:
  "AzWebAppTLSEvent_eval friendly_string_example py_str_example
     (AzWebAppTLSEvent_init default_min_tls_version)
     (PDict [(''ext'', PDict [(''record_type'', PStr ''web_app_config''),
                              (''min_tls_version'', PStr ''1.1'')]),
             (''com'', PDict [(''cloud_type'', PList [PStr ''azure''])])])
   = ([], Some TypeError)"
  by (simp add: AzWebAppTLSEvent_eval_def dict_get_def float_of_string_1_1
      AzWebAppTLSEvent_init_def default_min_tls_version_value get_azure_web_app_tls_event_def
      friendly_string_example_def)

lemma example_records_not_None:
  "insecure_record \<noteq> PNone" "other_record \<noteq> PNone"
  "PNone \<noteq> insecure_record" "PNone \<noteq> other_record"
  by (simp_all add: insecure_record_def other_record_def)

lemma eval_other_record:
  "AzWebAppTLSEvent_eval fs ps self other_record = ([], None)"
  by (simp add: other_record_def AzWebAppTLSEvent_eval_def dict_get_def)

theorem event_ext_is_merged_copy_witness:
  "\<exists>r ext new_ext.
     insecure_record = PDict r \<and> map_of r ''ext'' = Some (PDict ext)
     \<and> get_azure_web_app_tls_event friendly_string_example py_str_example (dict_get r ''com'')
          ext (min_tls_version (AzWebAppTLSEvent_init default_min_tls_version))
        = (([hd (fst (AzWebAppTLSEvent_eval friendly_string_example py_str_example
                        (AzWebAppTLSEvent_init default_min_tls_version) insecure_record))],
            None), ext)
     \<and> bucket (hd (fst (AzWebAppTLSEvent_eval friendly_string_example py_str_example
                          (AzWebAppTLSEvent_init default_min_tls_version) insecure_record)))
          ''ext'' = Some (PDict new_ext)
     \<and> (\<forall>k. map_of new_ext k =
            (if k = ''record_type'' then Some (PStr ''web_app_tls_event'') else map_of ext k))"
  using event_ext_is_merged_copy
    [of "hd (fst (AzWebAppTLSEvent_eval friendly_string_example py_str_example
                    (AzWebAppTLSEvent_init default_min_tls_version) insecure_record))"
      friendly_string_example py_str_example
      "AzWebAppTLSEvent_init default_min_tls_version" insecure_record]
  by (simp add: eval_insecure_record)

section \<open>The workers\<close>

subsection \<open>Projections of a run\<close>

lemma puts_to_append: "puts_to q (t1 @ t2) = puts_to q t1 @ puts_to q t2"
  by (induction q t1 rule: puts_to.induct) simp_all

lemma all_puts_append: "all_puts (t1 @ t2) = all_puts t1 @ all_puts t2"
  by (induction t1 rule: all_puts.induct) simp_all

lemma gets_append: "gets (t1 @ t2) = gets t1 @ gets t2"
  by (induction t1 rule: gets.induct) simp_all

lemma done_calls_append: "done_calls (t1 @ t2) = done_calls t1 + done_calls t2"
  by (simp add: done_calls_def)

lemma puts_to_put_all: "puts_to q (put_all qs r) = replicate (count_list qs q) r"
  by (induction qs) (simp_all add: put_all_def)

lemma all_puts_put_all: "all_puts (put_all qs r) = replicate (length qs) r"
  by (induction qs) (simp_all add: put_all_def)

lemma gets_put_all: "gets (put_all qs r) = []"
  by (induction qs) (simp_all add: put_all_def)

lemma done_calls_put_all: "done_calls (put_all qs r) = 0"
  by (induction qs) (simp_all add: put_all_def done_calls_def)

lemma puts_to_fan_out:
  "puts_to q (concat (map (put_all qs) rs)) = concat (map (replicate (count_list qs q)) rs)"
  by (induction rs) (simp_all add: puts_to_append puts_to_put_all)

lemma all_puts_fan_out:
  "all_puts (concat (map (put_all qs) rs)) = concat (map (replicate (length qs)) rs)"
  by (induction rs) (simp_all add: all_puts_append all_puts_put_all)

lemma gets_fan_out: "gets (concat (map (put_all qs) rs)) = []"
  by (induction rs) (simp_all add: gets_append gets_put_all)

lemma done_calls_fan_out: "done_calls (concat (map (put_all qs) rs)) = 0"
proof (induction rs)
  case Nil
  show ?case by (simp add: done_calls_def)
next
  case (Cons r rs)
  then show ?case by (simp add: done_calls_append done_calls_put_all)
qed

lemma Log_notin_fan_out: "Log m \<notin> set (concat (map (put_all qs) rs))"
  by (auto simp: put_all_def)

lemma count_list_distinct: "distinct qs \<Longrightarrow> q \<in> set qs \<Longrightarrow> count_list qs q = 1"
  by (induction qs) (auto simp: count_list_0_iff)

lemma concat_replicate_one: "concat (map (replicate (Suc 0)) rs) = rs"
  by (induction rs) simp_all

subsection \<open>The producer worker\<close>

lemma cloud_worker_puts_to:
  "puts_to q (fst (cloud_worker n cp qs s)) =
     concat (map (replicate (count_list qs q)) (fst (fst (cloud_read cp s))))"
  by (simp add: cloud_worker_def puts_to_append puts_to_fan_out Let_def
      split: prod.splits option.splits)

subsection \<open>The events put by the transform worker\<close>

lemma check_loop_puts_to:
  "puts_to q (fst (check_loop kp items qs s)) =
     concat (map (replicate (count_list qs q)) (produced kp items s))"
proof (induction items arbitrary: s)
  case Nil
  show ?case by simp
next
  case (Cons x items)
  show ?case
  proof (cases "x = PNone")
    case True
    then show ?thesis by (simp split: prod.splits option.splits)
  next
    case False
    obtain evs err s' where ev: "check_eval kp s x = ((evs, err), s')"
      by (metis prod.exhaust)
    show ?thesis
    proof (cases err)
      case None
      obtain t out where l: "check_loop kp items qs s' = (t, out)" by (metis prod.exhaust)
      have "puts_to q t = concat (map (replicate (count_list qs q)) (produced kp items s'))"
        using Cons.IH [of s'] l by simp
      then show ?thesis
        using False ev None l by (simp add: puts_to_append puts_to_fan_out)
    next
      case (Some e)
      then show ?thesis
        using False ev by (simp add: puts_to_fan_out)
    qed
  qed
qed

lemma check_loop_all_puts:
  "all_puts (fst (check_loop kp items qs s)) =
     concat (map (replicate (length qs)) (produced kp items s))"
proof (induction items arbitrary: s)
  case Nil
  show ?case by simp
next
  case (Cons x items)
  show ?case
  proof (cases "x = PNone")
    case True
    then show ?thesis by (simp split: prod.splits option.splits)
  next
    case False
    obtain evs err s' where ev: "check_eval kp s x = ((evs, err), s')"
      by (metis prod.exhaust)
    show ?thesis
    proof (cases err)
      case None
      obtain t out where l: "check_loop kp items qs s' = (t, out)" by (metis prod.exhaust)
      have "all_puts t = concat (map (replicate (length qs)) (produced kp items s'))"
        using Cons.IH [of s'] l by simp
      then show ?thesis
        using False ev None l by (simp add: all_puts_append all_puts_fan_out)
    next
      case (Some e)
      then show ?thesis
        using False ev by (simp add: all_puts_fan_out)
    qed
  qed
qed

lemma check_worker_puts_to:
  "puts_to q (fst (check_worker n kp items qs s)) = puts_to q (fst (check_loop kp items qs s))"
  by (simp add: check_worker_def puts_to_append split: prod.splits)

lemma check_worker_all_puts:
  "all_puts (fst (check_worker n kp items qs s)) = all_puts (fst (check_loop kp items qs s))"
  by (simp add: check_worker_def all_puts_append split: prod.splits)

lemma done_calls_simps [simp]:
  "done_calls [] = 0"
  "done_calls (CallDone # t) = Suc (done_calls t)"
  "done_calls (Log m # t) = done_calls t"
  "done_calls (Get r # t) = done_calls t"
  "done_calls (Put q r # t) = done_calls t"
  "done_calls (CallRead # t) = done_calls t"
  "done_calls (CallEval r # t) = done_calls t"
  "done_calls (CallWrite r # t) = done_calls t"
  by (simp_all add: done_calls_def)

subsection \<open>Reading up to the end-of-stream marker\<close>

lemma store_loop_done_calls:
  "store_loop sp items s = (t, out) \<Longrightarrow>
     done_calls t = (if PNone \<in> set (gets t) then 1 else 0)"
proof (induction items arbitrary: s t out)
  case Nil
  then show ?case by auto
next
  case (Cons x items)
  show ?case
  proof (cases "x = PNone")
    case True
    then show ?thesis using Cons.prems by (auto split: prod.splits option.splits)
  next
    case False
    obtain err s' where w: "store_write sp s x = (err, s')" by (metis prod.exhaust)
    show ?thesis
    proof (cases err)
      case None
      obtain t' where l: "store_loop sp items s' = (t', out)" and t: "t = Get x # CallWrite x # t'"
        using Cons.prems False w None by (auto split: prod.splits)
      show ?thesis using Cons.IH [OF l] t False by simp
    next
      case (Some e)
      then show ?thesis using Cons.prems False w by auto
    qed
  qed
qed

lemma store_loop_gets:
  assumes "PNone \<notin> set pre" and "store_loop sp (pre @ PNone # post) s = (t, out)"
  shows "prefix (gets t) (pre @ [PNone])
         \<and> (PNone \<in> set (gets t) \<longrightarrow> gets t = pre @ [PNone])"
  using assms
proof (induction pre arbitrary: s t out)
  case Nil
  then show ?case by (auto split: prod.splits option.splits)
next
  case (Cons x pre)
  then have x: "x \<noteq> PNone" and pre: "PNone \<notin> set pre" by auto
  obtain err s' where w: "store_write sp s x = (err, s')" by (metis prod.exhaust)
  show ?case
  proof (cases err)
    case None
    obtain t' where l: "store_loop sp (pre @ PNone # post) s' = (t', out)"
      and t: "t = Get x # CallWrite x # t'"
      using Cons.prems(2) x w None by (auto split: prod.splits)
    show ?thesis using Cons.IH [OF pre l] t x by simp
  next
    case (Some e)
    then show ?thesis using Cons.prems(2) x w by auto
  qed
qed

lemma store_worker_trace:
  "store_worker n sp items s = (t, out) \<Longrightarrow>
     \<exists>t'. store_loop sp items s = (t', out)
          \<and> t = Log (n @ '': Started'') # t'
                  @ (if out = Returned then [Log (n @ '': Stopped'')] else [])"
  by (auto simp: store_worker_def split: prod.splits)

lemma store_worker_gets_done:
  assumes "store_worker n sp items s = (t, out)"
  obtains t' where "store_loop sp items s = (t', out)" "gets t = gets t'"
    "done_calls t = done_calls t'"
proof -
  obtain t' where l: "store_loop sp items s = (t', out)"
    and t: "t = Log (n @ '': Started'') # t'
                  @ (if out = Returned then [Log (n @ '': Stopped'')] else [])"
    using store_worker_trace [OF assms] by blast
  have "gets t = gets t'" "done_calls t = done_calls t'"
    by (simp_all add: t gets_append done_calls_append)
  with l show ?thesis using that by blast
qed


lemma check_loop_done_calls:
  "done_calls (fst (check_loop kp items qs s)) = (if PNone \<in> set (gets (fst (check_loop kp items qs s))) then 1 else 0)"
proof (induction items arbitrary: s)
  case Nil
  show ?case by simp
next
  case (Cons x items)
  show ?case
  proof (cases "x = PNone")
    case True
    then show ?thesis by (simp split: prod.splits option.splits)
  next
    case False
    obtain evs err s' where ev: "check_eval kp s x = ((evs, err), s')"
      by (metis prod.exhaust)
    show ?thesis
    proof (cases err)
      case None
      obtain t out where l: "check_loop kp items qs s' = (t, out)" by (metis prod.exhaust)
      have "done_calls t = (if PNone \<in> set (gets t) then 1 else 0)"
        using Cons.IH [of s'] l by simp
      then show ?thesis
        using False ev None l
        by (simp add: done_calls_append done_calls_fan_out gets_append gets_fan_out)
    next
      case (Some e)
      then show ?thesis
        using False ev by (simp add: done_calls_fan_out gets_fan_out)
    qed
  qed
qed

lemma check_loop_gets:
  assumes "PNone \<notin> set pre"
  shows "prefix (gets (fst (check_loop kp (pre @ PNone # post) qs s))) (pre @ [PNone])
         \<and> (PNone \<in> set (gets (fst (check_loop kp (pre @ PNone # post) qs s)))
              \<longrightarrow> gets (fst (check_loop kp (pre @ PNone # post) qs s)) = pre @ [PNone])"
  using assms
proof (induction pre arbitrary: s)
  case Nil
  show ?case by (simp split: prod.splits option.splits)
next
  case (Cons x pre)
  then have x: "x \<noteq> PNone" and pre: "PNone \<notin> set pre" by auto
  obtain evs err s' where ev: "check_eval kp s x = ((evs, err), s')"
    by (metis prod.exhaust)
  show ?case
  proof (cases err)
    case None
    obtain t out where l: "check_loop kp (pre @ PNone # post) qs s' = (t, out)"
      by (metis prod.exhaust)
    have "prefix (gets t) (pre @ [PNone]) \<and> (PNone \<in> set (gets t) \<longrightarrow> gets t = pre @ [PNone])"
      using Cons.IH [OF pre, of s'] l by simp
    then show ?thesis using x ev None l by (simp add: gets_append gets_fan_out)
  next
    case (Some e)
    then show ?thesis using x ev by (simp add: gets_fan_out)
  qed
qed

lemma check_worker_gets:
  "gets (fst (check_worker n kp items qs s)) = gets (fst (check_loop kp items qs s))"
  by (simp add: check_worker_def gets_append split: prod.splits)

lemma check_worker_done_calls:
  "done_calls (fst (check_worker n kp items qs s)) = done_calls (fst (check_loop kp items qs s))"
  by (simp add: check_worker_def done_calls_append split: prod.splits)

subsection \<open>Log messages\<close>

lemma store_loop_no_Log: "Log m \<notin> set (fst (store_loop sp items s))"
proof (induction items arbitrary: s)
  case Nil
  show ?case by simp
next
  case (Cons x items)
  show ?case
  proof (cases "x = PNone")
    case True
    then show ?thesis by (simp split: prod.splits option.splits)
  next
    case False
    obtain err s' where w: "store_write sp s x = (err, s')" by (metis prod.exhaust)
    show ?thesis
      using False w Cons.IH [of s'] by (cases err) (auto split: prod.splits)
  qed
qed

lemma check_loop_no_Log: "Log m \<notin> set (fst (check_loop kp items qs s))"
proof (induction items arbitrary: s)
  case Nil
  show ?case by simp
next
  case (Cons x items)
  show ?case
  proof (cases "x = PNone")
    case True
    then show ?thesis by (simp split: prod.splits option.splits)
  next
    case False
    obtain evs err s' where ev: "check_eval kp s x = ((evs, err), s')"
      by (metis prod.exhaust)
    show ?thesis
      using False ev Cons.IH [of s'] Log_notin_fan_out [of m qs evs]
      by (cases err) (auto split: prod.splits)
  qed
qed

lemma store_loop_Returned:
  "snd (store_loop sp items s) = Returned \<Longrightarrow>
     \<exists>t. fst (store_loop sp items s) = t @ [CallDone]"
proof (induction items arbitrary: s)
  case Nil
  then show ?case by simp
next
  case (Cons x items)
  show ?case
  proof (cases "x = PNone")
    case True
    then show ?thesis using Cons.prems by (auto split: prod.splits option.splits)
  next
    case False
    obtain err s' where w: "store_write sp s x = (err, s')" by (metis prod.exhaust)
    show ?thesis
    proof (cases err)
      case None
      then have "snd (store_loop sp items s') = Returned"
        using Cons.prems False w by (simp split: prod.splits)
      then obtain t where "fst (store_loop sp items s') = t @ [CallDone]"
        using Cons.IH by blast
      then have "fst (store_loop sp (x # items) s) = (Get x # CallWrite x # t) @ [CallDone]"
        using False w None by (auto split: prod.splits)
      then show ?thesis by blast
    next
      case (Some e)
      then show ?thesis using Cons.prems False w by simp
    qed
  qed
qed

lemma check_loop_Returned:
  "snd (check_loop kp items qs s) = Returned \<Longrightarrow>
     \<exists>t. fst (check_loop kp items qs s) = t @ [CallDone]"
proof (induction items arbitrary: s)
  case Nil
  then show ?case by simp
next
  case (Cons x items)
  show ?case
  proof (cases "x = PNone")
    case True
    then show ?thesis using Cons.prems by (auto split: prod.splits option.splits)
  next
    case False
    obtain evs err s' where ev: "check_eval kp s x = ((evs, err), s')"
      by (metis prod.exhaust)
    show ?thesis
    proof (cases err)
      case None
      then have "snd (check_loop kp items qs s') = Returned"
        using Cons.prems False ev by (simp split: prod.splits)
      then obtain t where "fst (check_loop kp items qs s') = t @ [CallDone]"
        using Cons.IH by blast
      then have "fst (check_loop kp (x # items) qs s) =
          (Get x # CallEval x # concat (map (put_all qs) evs) @ t) @ [CallDone]"
        using False ev None by (auto split: prod.splits)
      then show ?thesis by blast
    next
      case (Some e)
      then show ?thesis using Cons.prems False ev by simp
    qed
  qed
qed

lemma cloud_worker_logs:
  "(\<exists>t. fst (cloud_worker n cp qs s) = Log (n @ '': Started'') # t)
   \<and> (Log (n @ '': Stopped'') \<in> set (fst (cloud_worker n cp qs s))
        \<longleftrightarrow> snd (cloud_worker n cp qs s) = Returned)
   \<and> (snd (cloud_worker n cp qs s) = Returned
        \<longleftrightarrow> (\<forall>e. snd (cloud_worker n cp qs s) \<noteq> Raised e))
   \<and> (snd (cloud_worker n cp qs s) = Returned \<longrightarrow>
        (\<exists>t. fst (cloud_worker n cp qs s) = t @ [CallDone, Log (n @ '': Stopped'')]))"
  using Log_notin_fan_out [of "n @ '': Stopped''" qs]
  by (auto simp: cloud_worker_def Let_def split: prod.splits option.splits)

lemma cloud_worker_done_raises:
  "cloud_read cp s = ((rs, None), s1) \<Longrightarrow> cloud_done cp s1 = (Some e, s2) \<Longrightarrow>
     snd (cloud_worker n cp qs s) = Raised e
     \<and> (\<exists>t. fst (cloud_worker n cp qs s) = t @ [CallDone])"
  by (simp add: cloud_worker_def Let_def)

lemma store_worker_logs:
  "(\<exists>t. fst (store_worker n sp items s) = Log (n @ '': Started'') # t)
   \<and> (Log (n @ '': Stopped'') \<in> set (fst (store_worker n sp items s))
        \<longleftrightarrow> snd (store_worker n sp items s) = Returned)
   \<and> (snd (store_worker n sp items s) = Returned \<longrightarrow>
        (\<exists>t. fst (store_worker n sp items s) = t @ [CallDone, Log (n @ '': Stopped'')]))"
proof -
  obtain t out where l: "store_loop sp items s = (t, out)" by (metis prod.exhaust)
  have nolog: "Log (n @ '': Stopped'') \<notin> set t"
    using store_loop_no_Log [of "n @ '': Stopped''" sp items s] l by simp
  have "\<exists>t'. t = t' @ [CallDone]" if "out = Returned"
    using store_loop_Returned [of sp items s] l that by simp
  then show ?thesis
    using l nolog by (auto simp: store_worker_def)
qed

lemma check_worker_logs:
  "(\<exists>t. fst (check_worker n kp items qs s) = Log (n @ '': Started'') # t)
   \<and> (Log (n @ '': Stopped'') \<in> set (fst (check_worker n kp items qs s))
        \<longleftrightarrow> snd (check_worker n kp items qs s) = Returned)
   \<and> (snd (check_worker n kp items qs s) = Returned \<longrightarrow>
        (\<exists>t. fst (check_worker n kp items qs s) = t @ [CallDone, Log (n @ '': Stopped'')]))"
proof -
  obtain t out where l: "check_loop kp items qs s = (t, out)" by (metis prod.exhaust)
  have nolog: "Log (n @ '': Stopped'') \<notin> set t"
    using check_loop_no_Log [of "n @ '': Stopped''" kp items qs s] l by simp
  have "\<exists>t'. t = t' @ [CallDone]" if "out = Returned"
    using check_loop_Returned [of kp items qs s] l that by simp
  then show ?thesis
    using l nolog by (auto simp: check_worker_def)
qed

lemma store_worker_done_raises:
  "store_done sp s = (Some e, s') \<Longrightarrow>
     store_worker n sp (PNone # rest) s = ([Log (n @ '': Started''), Get PNone, CallDone], Raised e)"
  by (simp add: store_worker_def)

lemma check_worker_done_raises:
  "check_done kp s = (Some e, s') \<Longrightarrow>
     check_worker n kp (PNone # rest) qs s
       = ([Log (n @ '': Started''), Get PNone, CallDone], Raised e)"
  by (simp add: check_worker_def)

subsection \<open>Fan-out\<close>

text \<open>
  Claim C1. For a producer worker and for a transform worker whose output queues are
  distinct queues, every record that the plugin yields to the worker (for the transform
  worker: every event record that \<open>eval\<close> yields) is put on each output queue, and
  what the worker puts on any one of them is the sequence that was yielded, in the same
  order.
\<close>

theorem fan_out_replication:
  assumes "distinct output_queues" and "q \<in> set output_queues"
  shows "puts_to q (fst (cloud_worker worker_name cloud_plugin output_queues s))
           = fst (fst (cloud_read cloud_plugin s))
         \<and> puts_to q (fst (check_worker worker_name check_plugin input_queue output_queues s'))
           = produced check_plugin input_queue s'"
  using assms
  by (simp add: cloud_worker_puts_to check_worker_puts_to check_loop_puts_to
      count_list_distinct concat_replicate_one)

theorem fan_out_replication_witness:
  "distinct [1, 2 :: queue] \<and> 2 \<in> set [1, 2 :: queue]
   \<and> puts_to 2 (fst (cloud_worker ''w'' list_cloud_plugin [1, 2]
                       [insecure_record, other_record]))
     = [insecure_record, other_record]
   \<and> puts_to 2 (fst (check_worker ''w''
                       (AzWebAppTLSEvent_plugin friendly_string_example py_str_example)
                       [insecure_record, other_record, PNone] [1, 2]
                       (AzWebAppTLSEvent_init default_min_tls_version)))
     = fst (AzWebAppTLSEvent_eval friendly_string_example py_str_example
              (AzWebAppTLSEvent_init default_min_tls_version) insecure_record)"
  using fan_out_replication
    [where output_queues = "[1, 2]" and q = 2 and worker_name = "''w''"
       and cloud_plugin = list_cloud_plugin and s = "[insecure_record, other_record]"
       and check_plugin = "AzWebAppTLSEvent_plugin friendly_string_example py_str_example"
       and input_queue = "[insecure_record, other_record, PNone]"
       and s' = "AzWebAppTLSEvent_init default_min_tls_version"]
  by (simp add: list_cloud_plugin_def AzWebAppTLSEvent_plugin_def eval_insecure_record
      eval_other_record example_records_not_None)

subsection \<open>The end-of-stream marker\<close>

text \<open>
  Claim C2. For \<open>store_worker\<close> and \<open>check_worker\<close> on an input queue that delivers
  \<open>pre\<close>, then the first end-of-stream marker, then \<open>post\<close>: the items read are an
  initial part of \<open>pre\<close> followed by the marker, so nothing of \<open>post\<close> is read;
  \<open>done()\<close> is called at most once; and when the marker is read, the items read are
  exactly \<open>pre\<close> and the marker, and \<open>done()\<close> is called exactly once.
\<close>

theorem sentinel_termination:
  assumes "PNone \<notin> set pre"
  shows "(let t = fst (store_worker worker_name store_plugin (pre @ PNone # post) s)
          in prefix (gets t) (pre @ [PNone]) \<and> done_calls t \<le> 1
             \<and> (PNone \<in> set (gets t) \<longrightarrow> gets t = pre @ [PNone] \<and> done_calls t = 1))
         \<and> (let t = fst (check_worker worker_name check_plugin (pre @ PNone # post)
                           output_queues s')
            in prefix (gets t) (pre @ [PNone]) \<and> done_calls t \<le> 1
               \<and> (PNone \<in> set (gets t) \<longrightarrow> gets t = pre @ [PNone] \<and> done_calls t = 1))"
proof -
  obtain t out where w: "store_worker worker_name store_plugin (pre @ PNone # post) s = (t, out)"
    by (metis prod.exhaust)
  from w obtain t' where l: "store_loop store_plugin (pre @ PNone # post) s = (t', out)"
    and g: "gets t = gets t'" and d: "done_calls t = done_calls t'"
    by (rule store_worker_gets_done)
  have "prefix (gets t) (pre @ [PNone]) \<and> done_calls t \<le> 1
        \<and> (PNone \<in> set (gets t) \<longrightarrow> gets t = pre @ [PNone] \<and> done_calls t = 1)"
    using store_loop_gets [OF assms l] store_loop_done_calls [OF l] by (simp add: g d)
  then show ?thesis
    using w check_loop_gets [OF assms, of check_plugin post output_queues s']
    by (simp add: Let_def check_worker_gets check_worker_done_calls check_loop_done_calls)
qed

theorem sentinel_termination_witness:
  "PNone \<notin> set [insecure_record, other_record]
   \<and> gets (fst (store_worker ''w'' list_store_plugin
                  ([insecure_record, other_record] @ PNone # [other_record, PNone]) []))
     = [insecure_record, other_record, PNone]
   \<and> done_calls (fst (store_worker ''w'' list_store_plugin
                        ([insecure_record, other_record] @ PNone # [other_record, PNone]) []))
     = 1
   \<and> gets (fst (check_worker ''w''
                  (AzWebAppTLSEvent_plugin friendly_string_example py_str_example)
                  ([insecure_record, other_record] @ PNone # [other_record, PNone]) [1, 2]
                  (AzWebAppTLSEvent_init default_min_tls_version)))
     = [insecure_record, other_record, PNone]
   \<and> done_calls (fst (check_worker ''w''
                        (AzWebAppTLSEvent_plugin friendly_string_example py_str_example)
                        ([insecure_record, other_record] @ PNone # [other_record, PNone]) [1, 2]
                        (AzWebAppTLSEvent_init default_min_tls_version)))
     = 1"
  using sentinel_termination
    [where pre = "[insecure_record, other_record]" and worker_name = "''w''"
       and store_plugin = list_store_plugin and post = "[other_record, PNone]" and s = "[]"
       and check_plugin = "AzWebAppTLSEvent_plugin friendly_string_example py_str_example"
       and output_queues = "[1, 2]" and s' = "AzWebAppTLSEvent_init default_min_tls_version"]
  by (simp add: Let_def store_worker_def check_worker_def list_store_plugin_def
      AzWebAppTLSEvent_plugin_def AzWebAppTLSEvent_done_def eval_insecure_record
      eval_other_record example_records_not_None put_all_def)

subsection \<open>Start and stop messages\<close>

lemma set_all_puts: "r \<in> set (all_puts t) \<longleftrightarrow> (\<exists>q. Put q r \<in> set t)"
  by (induction t rule: all_puts.induct) auto

lemma store_loop_Blocked:
  "snd (store_loop sp items s) = Blocked \<Longrightarrow> PNone \<notin> set (gets (fst (store_loop sp items s)))"
proof (induction items arbitrary: s)
  case Nil
  show ?case by simp
next
  case (Cons x items)
  show ?case
  proof (cases "x = PNone")
    case True
    then show ?thesis using Cons.prems by (auto split: prod.splits option.splits)
  next
    case False
    obtain err s' where w: "store_write sp s x = (err, s')" by (metis prod.exhaust)
    show ?thesis
      using False w Cons.IH [of s'] Cons.prems by (cases err) (auto split: prod.splits)
  qed
qed

lemma check_loop_Blocked:
  "snd (check_loop kp items qs s) = Blocked \<Longrightarrow>
     PNone \<notin> set (gets (fst (check_loop kp items qs s)))"
proof (induction items arbitrary: s)
  case Nil
  show ?case by simp
next
  case (Cons x items)
  show ?case
  proof (cases "x = PNone")
    case True
    then show ?thesis using Cons.prems by (auto split: prod.splits option.splits)
  next
    case False
    obtain evs err s' where ev: "check_eval kp s x = ((evs, err), s')"
      by (metis prod.exhaust)
    show ?thesis
      using False ev Cons.IH [of s'] Cons.prems
      by (cases err) (auto simp: gets_append gets_fan_out split: prod.splits)
  qed
qed

lemma store_worker_Returned_iff:
  "snd (store_worker n sp items s) = Returned \<longleftrightarrow>
     (\<forall>e. snd (store_worker n sp items s) \<noteq> Raised e)
     \<and> PNone \<in> set (gets (fst (store_worker n sp items s)))"
proof -
  obtain t out where l: "store_loop sp items s = (t, out)" by (metis prod.exhaust)
  have w: "store_worker n sp items s =
      (Log (n @ '': Started'') # t @ (if out = Returned then [Log (n @ '': Stopped'')] else []), out)"
    by (simp add: store_worker_def l)
  have g: "gets (fst (store_worker n sp items s)) = gets t"
    by (simp add: w gets_append)
  have d: "done_calls t = (if PNone \<in> set (gets t) then 1 else 0)"
    using store_loop_done_calls [OF l] .
  have r: "out = Returned \<Longrightarrow> PNone \<in> set (gets t)"
    using store_loop_Returned [of sp items s] d by (auto simp: l done_calls_append split: if_splits)
  have b: "out = Blocked \<Longrightarrow> PNone \<notin> set (gets t)"
    using store_loop_Blocked [of sp items s] by (simp add: l)
  show ?thesis
    unfolding g using r b by (cases out) (auto simp: w)
qed

lemma check_worker_Returned_iff:
  "snd (check_worker n kp items qs s) = Returned \<longleftrightarrow>
     (\<forall>e. snd (check_worker n kp items qs s) \<noteq> Raised e)
     \<and> PNone \<in> set (gets (fst (check_worker n kp items qs s)))"
proof -
  obtain t out where l: "check_loop kp items qs s = (t, out)" by (metis prod.exhaust)
  have w: "check_worker n kp items qs s =
      (Log (n @ '': Started'') # t @ (if out = Returned then [Log (n @ '': Stopped'')] else []), out)"
    by (simp add: check_worker_def l)
  have g: "gets (fst (check_worker n kp items qs s)) = gets t"
    by (simp add: w gets_append)
  have d: "done_calls t = (if PNone \<in> set (gets t) then 1 else 0)"
    using check_loop_done_calls [of kp items qs s] by (simp add: l)
  have r: "out = Returned \<Longrightarrow> PNone \<in> set (gets t)"
    using check_loop_Returned [of kp items qs s] d
    by (auto simp: l done_calls_append split: if_splits)
  have b: "out = Blocked \<Longrightarrow> PNone \<notin> set (gets t)"
    using check_loop_Blocked [of kp items qs s] by (simp add: l)
  show ?thesis
    unfolding g using r b by (cases out) (auto simp: w)
qed

text \<open>
  Claim C8, as the code has it. Every worker logs the start message with its
  \<open>worker_name\<close> before anything else. It logs the stop message with its
  \<open>worker_name\<close> if and only if the run returns: for \<open>cloud_worker\<close>, if and only if
  no method of the plugin (\<open>done()\<close> included) raises; for \<open>store_worker\<close> and
  \<open>check_worker\<close>, if and only if no method raises and the end-of-stream marker is read
  (a worker that waits for ever on its input queue logs no stop message). When the stop
  message is logged, the call of \<open>done()\<close> is the action just before it; an exception
  raised by \<open>done()\<close> leaves the worker, which ends without the stop message.
\<close>

theorem start_and_stop_logs:
  "(\<exists>t. fst (cloud_worker n cp qs s) = Log (n @ '': Started'') # t)
   \<and> (\<exists>t. fst (store_worker n sp items s2) = Log (n @ '': Started'') # t)
   \<and> (\<exists>t. fst (check_worker n kp items qs s3) = Log (n @ '': Started'') # t)
   \<and> (Log (n @ '': Stopped'') \<in> set (fst (cloud_worker n cp qs s))
        \<longleftrightarrow> (\<forall>e. snd (cloud_worker n cp qs s) \<noteq> Raised e))
   \<and> (Log (n @ '': Stopped'') \<in> set (fst (store_worker n sp items s2))
        \<longleftrightarrow> (\<forall>e. snd (store_worker n sp items s2) \<noteq> Raised e)
            \<and> PNone \<in> set (gets (fst (store_worker n sp items s2))))
   \<and> (Log (n @ '': Stopped'') \<in> set (fst (check_worker n kp items qs s3))
        \<longleftrightarrow> (\<forall>e. snd (check_worker n kp items qs s3) \<noteq> Raised e)
            \<and> PNone \<in> set (gets (fst (check_worker n kp items qs s3))))
   \<and> (Log (n @ '': Stopped'') \<in> set (fst (cloud_worker n cp qs s)) \<longrightarrow>
        (\<exists>t. fst (cloud_worker n cp qs s) = t @ [CallDone, Log (n @ '': Stopped'')]))
   \<and> (Log (n @ '': Stopped'') \<in> set (fst (store_worker n sp items s2)) \<longrightarrow>
        (\<exists>t. fst (store_worker n sp items s2) = t @ [CallDone, Log (n @ '': Stopped'')]))
   \<and> (Log (n @ '': Stopped'') \<in> set (fst (check_worker n kp items qs s3)) \<longrightarrow>
        (\<exists>t. fst (check_worker n kp items qs s3) = t @ [CallDone, Log (n @ '': Stopped'')]))
   \<and> (cloud_read cp s = ((rs, None), s1) \<and> cloud_done cp s1 = (Some e1, s1') \<longrightarrow>
        snd (cloud_worker n cp qs s) = Raised e1
        \<and> Log (n @ '': Stopped'') \<notin> set (fst (cloud_worker n cp qs s)))
   \<and> (store_done sp s2 = (Some e2, s2') \<longrightarrow>
        store_worker n sp (PNone # rest) s2
          = ([Log (n @ '': Started''), Get PNone, CallDone], Raised e2))
   \<and> (check_done kp s3 = (Some e3, s3') \<longrightarrow>
        check_worker n kp (PNone # rest) qs s3
          = ([Log (n @ '': Started''), Get PNone, CallDone], Raised e3))"
proof -
  have c: "Log (n @ '': Stopped'') \<in> set (fst (cloud_worker n cp qs s))
        \<longleftrightarrow> (\<forall>e. snd (cloud_worker n cp qs s) \<noteq> Raised e)"
    using cloud_worker_logs [of n cp qs s] by blast
  have cd: "snd (cloud_worker n cp qs s) = Raised e1
        \<and> Log (n @ '': Stopped'') \<notin> set (fst (cloud_worker n cp qs s))"
    if "cloud_read cp s = ((rs, None), s1)" "cloud_done cp s1 = (Some e1, s1')"
    using cloud_worker_done_raises [OF that, of n qs] c by simp
  have st: "Log (n @ '': Stopped'') \<in> set (fst (store_worker n sp items s2))
        \<longleftrightarrow> (\<forall>e. snd (store_worker n sp items s2) \<noteq> Raised e)
            \<and> PNone \<in> set (gets (fst (store_worker n sp items s2)))"
    using store_worker_logs [of n sp items s2] store_worker_Returned_iff [of n sp items s2]
    by blast
  have ch: "Log (n @ '': Stopped'') \<in> set (fst (check_worker n kp items qs s3))
        \<longleftrightarrow> (\<forall>e. snd (check_worker n kp items qs s3) \<noteq> Raised e)
            \<and> PNone \<in> set (gets (fst (check_worker n kp items qs s3)))"
    using check_worker_logs [of n kp items qs s3] check_worker_Returned_iff [of n kp items qs s3]
    by blast
  show ?thesis
    using cloud_worker_logs [of n cp qs s] store_worker_logs [of n sp items s2]
      check_worker_logs [of n kp items qs s3] c st ch cd
      store_worker_done_raises [of sp s2 e2 s2' n rest]
      check_worker_done_raises [of kp s3 e3 s3' n rest qs]
    by blast
qed

theorem start_and_stop_logs_witness:
  "fst (cloud_worker ''w'' list_cloud_plugin [1, 2] [other_record])
     = [Log ''w: Started'', CallRead, Put 1 other_record, Put 2 other_record, CallDone,
        Log ''w: Stopped'']
   \<and> fst (store_worker ''w'' list_store_plugin [other_record, PNone] [])
     = [Log ''w: Started'', Get other_record, CallWrite other_record, Get PNone, CallDone,
        Log ''w: Stopped'']
   \<and> fst (check_worker ''w'' (AzWebAppTLSEvent_plugin friendly_string_example py_str_example)
           [other_record, PNone] [1, 2] (AzWebAppTLSEvent_init default_min_tls_version))
     = [Log ''w: Started'', Get other_record, CallEval other_record, Get PNone, CallDone,
        Log ''w: Stopped'']
   \<and> cloud_worker ''w'' failing_cloud_plugin [1, 2] ()
     = ([Log ''w: Started'', CallRead, CallDone], Raised (PluginError ''cleanup''))
   \<and> store_worker ''w'' failing_store_plugin [PNone, other_record] ()
     = ([Log ''w: Started'', Get PNone, CallDone], Raised (PluginError ''cleanup''))
   \<and> check_worker ''w'' failing_check_plugin [PNone, other_record] [1, 2] ()
     = ([Log ''w: Started'', Get PNone, CallDone], Raised (PluginError ''cleanup''))"
  using
    start_and_stop_logs
      [where n = "''w''" and cp = list_cloud_plugin and qs = "[1, 2]" and s = "[other_record]"
         and sp = list_store_plugin and items = "[other_record, PNone]" and ?s2.0 = "[]"
         and kp = "AzWebAppTLSEvent_plugin friendly_string_example py_str_example"
         and ?s3.0 = "AzWebAppTLSEvent_init default_min_tls_version"]
    start_and_stop_logs
      [where n = "''w''" and cp = failing_cloud_plugin and qs = "[1, 2]" and s = "()"
         and rs = "[]" and ?s1.0 = "()" and ?e1.0 = "PluginError ''cleanup''" and s1' = "()"
         and sp = failing_store_plugin and ?s2.0 = "()" and ?e2.0 = "PluginError ''cleanup''"
         and s2' = "()" and rest = "[other_record]"
         and kp = failing_check_plugin and ?s3.0 = "()" and ?e3.0 = "PluginError ''cleanup''"
         and s3' = "()"]
  by (simp add: cloud_worker_def store_worker_def check_worker_def list_cloud_plugin_def
      list_store_plugin_def AzWebAppTLSEvent_plugin_def AzWebAppTLSEvent_done_def
      failing_cloud_plugin_def failing_store_plugin_def failing_check_plugin_def
      eval_other_record example_records_not_None put_all_def)

text \<open>
  The claim as stated fails for a worker whose input queue never delivers anything: no
  method of the plugin raises, and the stop message is not logged, since the worker
  waits in \<open>get\<close> for ever.
\<close>

theorem start_and_stop_logs_counterexample:
  "snd (store_worker ''w'' list_store_plugin [] []) = Blocked
   \<and> Log ''w: Stopped'' \<notin> set (fst (store_worker ''w'' list_store_plugin [] []))"
  by (simp add: store_worker_def)

subsection \<open>What is put on the output queues\<close>

lemma eval_yields_dict:
  assumes "ev \<in> set (fst (AzWebAppTLSEvent_eval fs ps self r))"
  shows "\<exists>d. ev = PDict d"
proof -
  have g: "ev' \<in> set (fst (fst (get_azure_web_app_tls_event fs ps com ext thr))) \<Longrightarrow>
             \<exists>d. ev' = PDict d" for ev' com ext thr
    using get_event_yields [of ev' fs ps com ext thr] by blast
  show ?thesis
    using assms g
    by (auto simp: AzWebAppTLSEvent_eval_def split: sum.splits if_splits)
qed

lemma tls_plugin_produced_no_None:
  "PNone \<notin> set (produced (AzWebAppTLSEvent_plugin fs ps) items self)"
proof (induction items)
  case Nil
  show ?case by simp
next
  case (Cons x items)
  obtain evs err where e: "AzWebAppTLSEvent_eval fs ps self x = (evs, err)"
    by (metis prod.exhaust)
  have "PNone \<notin> set evs"
    using eval_yields_dict [of PNone fs ps self x] e by auto
  then show ?case
    using Cons.IH e by (cases err) (auto simp: AzWebAppTLSEvent_plugin_def)
qed

lemma cloud_worker_Put:
  "Put q r \<in> set (fst (cloud_worker n cp qs s)) \<Longrightarrow>
     q \<in> set qs \<and> r \<in> set (fst (fst (cloud_read cp s)))"
  by (auto simp: cloud_worker_def Let_def put_all_def split: prod.splits option.splits)

lemma check_worker_Put:
  assumes "Put q r \<in> set (fst (check_worker n kp items qs s))"
  shows "r \<in> set (produced kp items s)"
proof -
  have "r \<in> set (all_puts (fst (check_worker n kp items qs s)))"
    using assms set_all_puts by blast
  then show ?thesis
    by (auto simp: check_worker_all_puts check_loop_all_puts)
qed

lemma eval_insecure_record_event:
  "AzWebAppTLSEvent_eval friendly_string_example py_str_example
     (AzWebAppTLSEvent_init default_min_tls_version) insecure_record = ([insecure_event], None)"
  by (simp add: eval_insecure_record insecure_event_def)

lemma insecure_event_not_None: "insecure_event \<noteq> PNone" "PNone \<noteq> insecure_event"
  by (simp_all add: insecure_event_def)

text \<open>
  Claim C4, as the code has it. Every item that \<open>cloud_worker\<close> or \<open>check_worker\<close>
  puts on an output queue is one that its plugin yielded (by \<open>read\<close>, or by \<open>eval\<close>
  during the run). So neither worker puts the end-of-stream marker when its plugin
  yields no \<open>None\<close>, which is the case for the TLS plugin, whose events are
  dictionaries; and \<open>check_worker\<close> puts nothing when it reads the marker, whatever
  follows it on the input queue.
\<close>

theorem workers_never_put_sentinel:
  "(Put q r \<in> set (fst (cloud_worker n cp qs s)) \<longrightarrow> r \<in> set (fst (fst (cloud_read cp s))))
   \<and> (Put q r \<in> set (fst (check_worker n kp items qs s')) \<longrightarrow> r \<in> set (produced kp items s'))
   \<and> (PNone \<notin> set (fst (fst (cloud_read cp s))) \<longrightarrow>
        Put q PNone \<notin> set (fst (cloud_worker n cp qs s)))
   \<and> (PNone \<notin> set (produced kp items s') \<longrightarrow>
        Put q PNone \<notin> set (fst (check_worker n kp items qs s')))
   \<and> Put q PNone \<notin> set (fst (check_worker n (AzWebAppTLSEvent_plugin fs ps) items qs self))
   \<and> Put q r \<notin> set (fst (check_worker n kp (PNone # rest) qs s'))"
proof -
  have "Put q PNone \<notin> set (fst (check_worker n (AzWebAppTLSEvent_plugin fs ps) items qs self))"
    using check_worker_Put [of q PNone n "AzWebAppTLSEvent_plugin fs ps" items qs self]
      tls_plugin_produced_no_None [of fs ps items self]
    by blast
  moreover have "Put q r \<notin> set (fst (check_worker n kp (PNone # rest) qs s'))"
    using check_worker_Put [of q r n kp "PNone # rest" qs s'] by auto
  ultimately show ?thesis
    using cloud_worker_Put [of q _ n cp qs s] check_worker_Put [of q _ n kp items qs s']
    by blast
qed

theorem workers_never_put_sentinel_witness:
  "Put 1 other_record \<in> set (fst (cloud_worker ''w'' list_cloud_plugin [1, 2] [other_record]))
   \<and> other_record \<in> set (fst (fst (cloud_read list_cloud_plugin [other_record])))
   \<and> PNone \<notin> set (fst (fst (cloud_read list_cloud_plugin [other_record])))
   \<and> Put 1 PNone \<notin> set (fst (cloud_worker ''w'' list_cloud_plugin [1, 2] [other_record]))
   \<and> Put 1 insecure_event
       \<in> set (fst (check_worker ''w''
                     (AzWebAppTLSEvent_plugin friendly_string_example py_str_example)
                     [insecure_record, PNone, other_record] [1, 2]
                     (AzWebAppTLSEvent_init default_min_tls_version)))
   \<and> produced (AzWebAppTLSEvent_plugin friendly_string_example py_str_example)
        [insecure_record, PNone, other_record] (AzWebAppTLSEvent_init default_min_tls_version)
     = [insecure_event]
   \<and> Put 1 PNone
       \<notin> set (fst (check_worker ''w''
                     (AzWebAppTLSEvent_plugin friendly_string_example py_str_example)
                     [insecure_record, PNone, other_record] [1, 2]
                     (AzWebAppTLSEvent_init default_min_tls_version)))"
  using
    workers_never_put_sentinel
      [where q = 1 and r = other_record and n = "''w''" and cp = list_cloud_plugin
         and qs = "[1, 2]" and s = "[other_record]"
         and kp = "AzWebAppTLSEvent_plugin friendly_string_example py_str_example"
         and items = "[insecure_record, PNone, other_record]"
         and s' = "AzWebAppTLSEvent_init default_min_tls_version"
         and fs = friendly_string_example and ps = py_str_example
         and self = "AzWebAppTLSEvent_init default_min_tls_version"]
    workers_never_put_sentinel
      [where q = 1 and r = insecure_event and n = "''w''" and cp = list_cloud_plugin
         and qs = "[1, 2]" and s = "[other_record]"
         and kp = "AzWebAppTLSEvent_plugin friendly_string_example py_str_example"
         and items = "[insecure_record, PNone, other_record]"
         and s' = "AzWebAppTLSEvent_init default_min_tls_version"
         and fs = friendly_string_example and ps = py_str_example
         and self = "AzWebAppTLSEvent_init default_min_tls_version"]
  by (simp add: cloud_worker_def check_worker_def list_cloud_plugin_def
      AzWebAppTLSEvent_plugin_def AzWebAppTLSEvent_done_def eval_insecure_record_event
      example_records_not_None insecure_event_not_None put_all_def)

text \<open>
  The claim as stated fails for a plugin whose \<open>read\<close> yields \<open>None\<close>: the worker
  puts what is yielded on every output queue, without looking at it.
\<close>

theorem workers_never_put_sentinel_counterexample:
  "fst (cloud_worker ''w'' list_cloud_plugin [1, 2] [PNone])
     = [Log ''w: Started'', CallRead, Put 1 PNone, Put 2 PNone, CallDone, Log ''w: Stopped'']"
  by (simp add: cloud_worker_def list_cloud_plugin_def put_all_def)

subsection \<open>Errors of the TLS plugin in the transform worker\<close>

lemma check_loop_tls_raises:
  assumes "\<forall>x\<in>set pre. x \<noteq> PNone \<and> snd (AzWebAppTLSEvent_eval fs ps self x) = None"
    and "r \<noteq> PNone"
    and "AzWebAppTLSEvent_eval fs ps self r = (evs, Some e)"
  shows "snd (check_loop (AzWebAppTLSEvent_plugin fs ps) (pre @ r # rest) qs self) = Raised e
         \<and> gets (fst (check_loop (AzWebAppTLSEvent_plugin fs ps) (pre @ r # rest) qs self))
             = pre @ [r]"
  using assms(1)
proof (induction pre)
  case Nil
  show ?case
    using assms(2,3) by (simp add: AzWebAppTLSEvent_plugin_def gets_fan_out)
next
  case (Cons x pre)
  then have x: "x \<noteq> PNone" and ex: "snd (AzWebAppTLSEvent_eval fs ps self x) = None"
    and pre: "\<forall>x\<in>set pre. x \<noteq> PNone \<and> snd (AzWebAppTLSEvent_eval fs ps self x) = None"
    by auto
  obtain xs where e: "AzWebAppTLSEvent_eval fs ps self x = (xs, None)"
    using ex by (metis prod.collapse)
  obtain t out where
    l: "check_loop (AzWebAppTLSEvent_plugin fs ps) (pre @ r # rest) qs self = (t, out)"
    by (metis prod.exhaust)
  have "out = Raised e \<and> gets t = pre @ [r]"
    using Cons.IH [OF pre] l by simp
  moreover have "check_loop (AzWebAppTLSEvent_plugin fs ps) ((x # pre) @ r # rest) qs self
      = (Get x # CallEval x # concat (map (put_all qs) xs) @ t, out)"
    using x e l by (simp add: AzWebAppTLSEvent_plugin_def)
  ultimately show ?case
    by (simp add: gets_append gets_fan_out)
qed

text \<open>
  Claim C5. For every record whose \<open>ext\<close> bucket has record type \<open>web_app_config\<close> and
  a minimum TLS version on which \<open>float\<close> raises, \<open>eval\<close> raises that error without
  yielding. \<open>check_worker\<close> does not catch it: when the records before this one are
  evaluated without an exception, the run of the worker ends with that error once it
  has read the record, nothing more is read and the stop message is not logged.
\<close>

theorem parse_error_propagates:
  assumes "map_of r ''ext'' = Some (PDict ext)"
    and "map_of ext ''record_type'' = Some (PStr ''web_app_config'')"
    and "py_float (dict_get ext ''min_tls_version'') = Inl e"
    and "\<forall>x\<in>set pre. x \<noteq> PNone \<and> snd (AzWebAppTLSEvent_eval fs ps self x) = None"
  shows "AzWebAppTLSEvent_eval fs ps self (PDict r) = ([], Some e)
         \<and> snd (check_worker n (AzWebAppTLSEvent_plugin fs ps) (pre @ PDict r # rest) qs self)
             = Raised e
         \<and> gets (fst (check_worker n (AzWebAppTLSEvent_plugin fs ps) (pre @ PDict r # rest)
                        qs self)) = pre @ [PDict r]
         \<and> Log (n @ '': Stopped'')
             \<notin> set (fst (check_worker n (AzWebAppTLSEvent_plugin fs ps) (pre @ PDict r # rest)
                            qs self))"
proof -
  have ev: "AzWebAppTLSEvent_eval fs ps self (PDict r) = ([], Some e)"
    using assms(1-3) by (simp add: eval_web_app_config)
  have l: "snd (check_loop (AzWebAppTLSEvent_plugin fs ps) (pre @ PDict r # rest) qs self)
             = Raised e
           \<and> gets (fst (check_loop (AzWebAppTLSEvent_plugin fs ps) (pre @ PDict r # rest) qs
                          self)) = pre @ [PDict r]"
    using check_loop_tls_raises [OF assms(4) _ ev] by simp
  have s: "snd (check_worker n (AzWebAppTLSEvent_plugin fs ps) (pre @ PDict r # rest) qs self)
             = Raised e"
    using l by (auto simp: check_worker_def split: prod.splits)
  show ?thesis
    using ev l s
      check_worker_logs [of n "AzWebAppTLSEvent_plugin fs ps" "pre @ PDict r # rest" qs self]
    by (simp add: check_worker_gets)
qed

theorem parse_error_propagates_witness:
  "map_of [(''ext'', PDict malformed_ext)] ''ext'' = Some (PDict malformed_ext)
   \<and> map_of malformed_ext ''record_type'' = Some (PStr ''web_app_config'')
   \<and> py_float (dict_get malformed_ext ''min_tls_version'') = Inl ValueError
   \<and> other_record \<noteq> PNone
   \<and> snd (AzWebAppTLSEvent_eval friendly_string_example py_str_example
            (AzWebAppTLSEvent_init default_min_tls_version) other_record) = None
   \<and> AzWebAppTLSEvent_eval friendly_string_example py_str_example
        (AzWebAppTLSEvent_init default_min_tls_version) (PDict [(''ext'', PDict malformed_ext)])
     = ([], Some ValueError)
   \<and> snd (check_worker ''w'' (AzWebAppTLSEvent_plugin friendly_string_example py_str_example)
           ([other_record] @ PDict [(''ext'', PDict malformed_ext)] # [insecure_record, PNone])
           [1, 2] (AzWebAppTLSEvent_init default_min_tls_version))
     = Raised ValueError
   \<and> gets (fst (check_worker ''w''
                  (AzWebAppTLSEvent_plugin friendly_string_example py_str_example)
                  ([other_record] @ PDict [(''ext'', PDict malformed_ext)]
                     # [insecure_record, PNone])
                  [1, 2] (AzWebAppTLSEvent_init default_min_tls_version)))
     = [other_record] @ [PDict [(''ext'', PDict malformed_ext)]]"
  using parse_error_propagates
    [where r = "[(''ext'', PDict malformed_ext)]" and ext = malformed_ext and e = ValueError
       and pre = "[other_record]" and fs = friendly_string_example and ps = py_str_example
       and self = "AzWebAppTLSEvent_init default_min_tls_version" and n = "''w''"
       and rest = "[insecure_record, PNone]" and qs = "[1, 2]"]
  by (simp add: malformed_ext_def dict_get_def float_of_string_no_float eval_other_record
      example_records_not_None)

end
